theory Spec2Isabelle
  imports Main "HOL-Library.Char_ord" "HOL-Library.Sublist"
begin

section \<open>The JavaScript values the library works on\<close>

text \<open>
  A JavaScript string is a sequence of code units; \<open>length\<close>, \<open>substring\<close>, \<open>slice\<close>
  and the regular expressions of the library all count code units. The model is
  \<^typ>\<open>string\<close>, one \<^typ>\<open>char\<close> per code unit, which covers the code units below 256.
\<close>

subsection \<open>Regular expressions\<close>

text \<open>
  A \<open>RegExp\<close> object is modelled by what the library observes of it: the match it finds
  when tried at one position of an input (the text before the position, the text from the
  position on; the result is the length of the match and its capture groups), and its
  \<open>g\<close> flag. Every use in the source first sets \<open>lastIndex = 0\<close>, so a scan always starts at
  the beginning of its input and the cursor is no part of the model. The sticky flag is
  not modelled.
\<close>

type_synonym captures = "string option list"
type_synonym matcher = "string \<Rightarrow> string \<Rightarrow> (nat \<times> captures) option"

record regexp =
  matchAt :: matcher
  global :: bool

text \<open>What a replacement is computed from: the match, its captures, the text before, the text after.\<close>

type_synonym replacer = "string \<Rightarrow> captures \<Rightarrow> string \<Rightarrow> string \<Rightarrow> string"

text \<open>
  \<open>String.prototype.replace\<close> with a global regular expression: matches are taken left to
  right, the next search starts where the last match ended, and after an empty match the
  search moves one code unit on.
\<close>

function replaceAll :: "matcher \<Rightarrow> replacer \<Rightarrow> string \<Rightarrow> string \<Rightarrow> string" where
  "replaceAll m f pre [] =
     (case m pre [] of None \<Rightarrow> [] | Some (n, caps) \<Rightarrow> f [] caps pre [])"
| "replaceAll m f pre (c # cs) =
     (case m pre (c # cs) of
        None \<Rightarrow> c # replaceAll m f (pre @ [c]) cs
      | Some (n, caps) \<Rightarrow>
          (let k = min n (Suc (length cs)) in
           if k = 0 then f [] caps pre (c # cs) @ c # replaceAll m f (pre @ [c]) cs
           else f (take k (c # cs)) caps pre (drop k (c # cs))
                @ replaceAll m f (pre @ take k (c # cs)) (drop k (c # cs))))"
  by pat_completeness auto
termination
  by (relation "measure (\<lambda>(m, f, pre, rest). length rest)") auto

text \<open>With a regular expression that is not global, only the first match is replaced.\<close>

fun replaceFirst :: "matcher \<Rightarrow> replacer \<Rightarrow> string \<Rightarrow> string \<Rightarrow> string" where
  "replaceFirst m f pre [] =
     (case m pre [] of None \<Rightarrow> [] | Some (n, caps) \<Rightarrow> f [] caps pre [])"
| "replaceFirst m f pre (c # cs) =
     (case m pre (c # cs) of
        None \<Rightarrow> c # replaceFirst m f (pre @ [c]) cs
      | Some (n, caps) \<Rightarrow>
          (let k = min n (Suc (length cs)) in
           f (take k (c # cs)) caps pre (drop k (c # cs)) @ drop k (c # cs)))"

definition replaceWith :: "regexp \<Rightarrow> replacer \<Rightarrow> string \<Rightarrow> string" where
  "replaceWith re f s =
     (if global re then replaceAll (matchAt re) f [] s else replaceFirst (matchAt re) f [] s)"

text \<open>\<open>RegExp.prototype.test\<close> from \<open>lastIndex = 0\<close>: is there a match at some position.\<close>

fun testFrom :: "matcher \<Rightarrow> string \<Rightarrow> string \<Rightarrow> bool" where
  "testFrom m pre [] = (m pre [] \<noteq> None)"
| "testFrom m pre (c # cs) = (m pre (c # cs) \<noteq> None \<or> testFrom m (pre @ [c]) cs)"

definition test :: "regexp \<Rightarrow> string \<Rightarrow> bool" where
  "test re s = testFrom (matchAt re) [] s"

subsection \<open>Replacement strings\<close>

text \<open>
  When the second argument of \<open>replace\<close> is a string, it is a template: \<open>$$\<close> is a dollar
  sign, \<open>$&\<close> the match, \<open>$`\<close> the text before it, \<open>$'\<close> the text after it, \<open>$n\<close> and
  \<open>$nn\<close> the capture group of that number when the expression has one (a two-digit number
  that names no group is read as one digit followed by a literal digit). Named groups are
  not modelled.
\<close>

definition isDigit :: "char \<Rightarrow> bool" where
  "isDigit c = (CHR ''0'' \<le> c \<and> c \<le> CHR ''9'')"

definition digitValue :: "char \<Rightarrow> nat" where
  "digitValue c = (of_char c :: nat) - 48"

definition capture :: "captures \<Rightarrow> nat \<Rightarrow> string" where
  "capture caps i = (case caps ! (i - 1) of None \<Rightarrow> [] | Some s \<Rightarrow> s)"

fun getSubstitution :: "string \<Rightarrow> captures \<Rightarrow> string \<Rightarrow> string \<Rightarrow> string \<Rightarrow> string" where
  "getSubstitution m caps preceding following [] = []"
| "getSubstitution m caps preceding following [c] = [c]"
| "getSubstitution m caps preceding following (c # d # t) =
     (if c \<noteq> CHR ''$'' then c # getSubstitution m caps preceding following (d # t)
      else if d = CHR ''$'' then CHR ''$'' # getSubstitution m caps preceding following t
      else if d = CHR ''&'' then m @ getSubstitution m caps preceding following t
      else if d = CHR 0x60 then preceding @ getSubstitution m caps preceding following t
      else if d = CHR 0x27 then following @ getSubstitution m caps preceding following t
      else if isDigit d then
        (case t of
           e # t' \<Rightarrow>
             if isDigit e \<and> 10 * digitValue d + digitValue e \<le> length caps
             then (if 1 \<le> 10 * digitValue d + digitValue e
                   then capture caps (10 * digitValue d + digitValue e)
                        @ getSubstitution m caps preceding following t'
                   else c # d # e # getSubstitution m caps preceding following t')
             else if 1 \<le> digitValue d \<and> digitValue d \<le> length caps
             then capture caps (digitValue d) @ getSubstitution m caps preceding following t
             else c # d # getSubstitution m caps preceding following t
         | [] \<Rightarrow>
             if 1 \<le> digitValue d \<and> digitValue d \<le> length caps
             then capture caps (digitValue d)
             else [c, d])
      else c # getSubstitution m caps preceding following (d # t))"

definition template :: "string \<Rightarrow> replacer" where
  "template tpl = (\<lambda>m caps preceding following. getSubstitution m caps preceding following tpl)"

subsection \<open>The regular expressions written in the source\<close>

text \<open>
  The expressions of the source are built from literal text, character classes, sequence,
  alternation, an optional part, bounded or unbounded repetition of a character class
  (greedy, or lazy as in \<open>*?\<close>) and the word boundary \<open>\b\<close>. The matcher lists the lengths
  of the candidate matches at a position in the order in which backtracking tries them;
  the match is the first. Capture groups are not represented: the expressions with groups
  are those of \<open>DEFAULT_SECRET_PATTERNS\<close>, whose replacement callback reads the match only.
\<close>

datatype rx =
    Lit string
  | Cls bool "char \<Rightarrow> bool"
  | Seq rx rx
  | Alt rx rx
  | Opt rx
  | Rep nat "nat option" bool "char \<Rightarrow> bool"
  | LazyRep nat "nat option" bool "char \<Rightarrow> bool"
  | WordB

definition upperTable :: "(char \<times> char) list" where
  "upperTable =
     zip (''abcdefghijklmnopqrstuvwxyz'' @
          [CHR 0xE0, CHR 0xE1, CHR 0xE2, CHR 0xE3, CHR 0xE4, CHR 0xE5, CHR 0xE6, CHR 0xE7,
           CHR 0xE8, CHR 0xE9, CHR 0xEA, CHR 0xEB, CHR 0xEC, CHR 0xED, CHR 0xEE, CHR 0xEF,
           CHR 0xF0, CHR 0xF1, CHR 0xF2, CHR 0xF3, CHR 0xF4, CHR 0xF5, CHR 0xF6, CHR 0xF8,
           CHR 0xF9, CHR 0xFA, CHR 0xFB, CHR 0xFC, CHR 0xFD, CHR 0xFE])
         (''ABCDEFGHIJKLMNOPQRSTUVWXYZ'' @
          [CHR 0xC0, CHR 0xC1, CHR 0xC2, CHR 0xC3, CHR 0xC4, CHR 0xC5, CHR 0xC6, CHR 0xC7,
           CHR 0xC8, CHR 0xC9, CHR 0xCA, CHR 0xCB, CHR 0xCC, CHR 0xCD, CHR 0xCE, CHR 0xCF,
           CHR 0xD0, CHR 0xD1, CHR 0xD2, CHR 0xD3, CHR 0xD4, CHR 0xD5, CHR 0xD6, CHR 0xD8,
           CHR 0xD9, CHR 0xDA, CHR 0xDB, CHR 0xDC, CHR 0xDD, CHR 0xDE])"

definition upperChar :: "char \<Rightarrow> char" where
  "upperChar c = (case map_of upperTable c of Some u \<Rightarrow> u | None \<Rightarrow> c)"

definition lowerChar :: "char \<Rightarrow> char" where
  "lowerChar c = (case map_of (map (\<lambda>(l, u). (u, l)) upperTable) c of Some l \<Rightarrow> l | None \<Rightarrow> c)"

text \<open>\<open>String.prototype.toLowerCase\<close> and \<open>includes\<close>.\<close>

definition toLowerCase :: "string \<Rightarrow> string" where
  "toLowerCase s = map lowerChar s"

fun includes_str :: "string \<Rightarrow> string \<Rightarrow> bool" where
  "includes_str [] k = (k = [])"
| "includes_str (c # cs) k = (prefix k (c # cs) \<or> includes_str cs k)"

text \<open>The character classes \<open>\s\<close>, \<open>\d\<close> and \<open>\w\<close> on the code units below 256.\<close>

definition isSpace :: "char \<Rightarrow> bool" where
  "isSpace c = (c \<in> set [CHR 0x09, CHR 0x0A, CHR 0x0B, CHR 0x0C, CHR 0x0D, CHR 0x20, CHR 0xA0])"

definition isLower :: "char \<Rightarrow> bool" where
  "isLower c = (CHR ''a'' \<le> c \<and> c \<le> CHR ''z'')"

definition isUpper :: "char \<Rightarrow> bool" where
  "isUpper c = (CHR ''A'' \<le> c \<and> c \<le> CHR ''Z'')"

definition isWordChar :: "char \<Rightarrow> bool" where
  "isWordChar c = (isLower c \<or> isUpper c \<or> isDigit c \<or> c = CHR ''_'')"

text \<open>
  With the \<open>i\<close> flag a code unit matches a class when some member of the class has the same
  canonical (upper case) form; a negated class inverts that.
\<close>

definition clsMatch :: "bool \<Rightarrow> bool \<Rightarrow> (char \<Rightarrow> bool) \<Rightarrow> char \<Rightarrow> bool" where
  "clsMatch ic neg p c =
     ((if ic then p c \<or> p (upperChar c) \<or> p (lowerChar c) else p c) \<noteq> neg)"

definition litMatch :: "bool \<Rightarrow> char \<Rightarrow> char \<Rightarrow> bool" where
  "litMatch ic a c = (if ic then upperChar a = upperChar c else a = c)"

definition lastOpt :: "string \<Rightarrow> char option" where
  "lastOpt pre = (case pre of [] \<Rightarrow> None | _ # _ \<Rightarrow> Some (last pre))"

definition prevAfter :: "char option \<Rightarrow> string \<Rightarrow> nat \<Rightarrow> char option" where
  "prevAfter prev s n = (case take n s of [] \<Rightarrow> prev | _ # _ \<Rightarrow> Some (last (take n s)))"

definition atWordBoundary :: "char option \<Rightarrow> string \<Rightarrow> bool" where
  "atWordBoundary prev s =
     ((case prev of None \<Rightarrow> False | Some a \<Rightarrow> isWordChar a)
      \<noteq> (case s of [] \<Rightarrow> False | c # _ \<Rightarrow> isWordChar c))"

definition repCount :: "bool \<Rightarrow> nat option \<Rightarrow> bool \<Rightarrow> (char \<Rightarrow> bool) \<Rightarrow> string \<Rightarrow> nat" where
  "repCount ic hi neg p s =
     (let k = length (takeWhile (clsMatch ic neg p) s)
      in case hi of None \<Rightarrow> k | Some h \<Rightarrow> min k h)"

fun ends :: "bool \<Rightarrow> rx \<Rightarrow> char option \<Rightarrow> string \<Rightarrow> nat list" where
  "ends ic (Lit l) prev s =
     (if length l \<le> length s \<and> list_all2 (litMatch ic) l (take (length l) s)
      then [length l] else [])"
| "ends ic (Cls neg p) prev s =
     (case s of [] \<Rightarrow> [] | c # _ \<Rightarrow> if clsMatch ic neg p c then [1] else [])"
| "ends ic (Seq a b) prev s =
     concat (map (\<lambda>n. map (\<lambda>k. n + k) (ends ic b (prevAfter prev s n) (drop n s)))
                 (ends ic a prev s))"
| "ends ic (Alt a b) prev s = ends ic a prev s @ ends ic b prev s"
| "ends ic (Opt a) prev s = filter (\<lambda>n. 0 < n) (ends ic a prev s) @ [0]"
| "ends ic (Rep lo hi neg p) prev s =
     (let kmax = repCount ic hi neg p s
      in if kmax < lo then [] else rev [lo ..< Suc kmax])"
| "ends ic (LazyRep lo hi neg p) prev s =
     (let kmax = repCount ic hi neg p s
      in if kmax < lo then [] else [lo ..< Suc kmax])"
| "ends ic WordB prev s = (if atWordBoundary prev s then [0] else [])"

definition rxMatcher :: "bool \<Rightarrow> rx \<Rightarrow> matcher" where
  "rxMatcher ic r =
     (\<lambda>pre s. case ends ic r (lastOpt pre) s of [] \<Rightarrow> None | n # _ \<Rightarrow> Some (n, []))"

text \<open>A regular expression literal \<open>/r/\<close> with its \<open>i\<close> and \<open>g\<close> flags.\<close>

definition RegExp :: "rx \<Rightarrow> bool \<Rightarrow> bool \<Rightarrow> regexp" where
  "RegExp r ignoreCase g = \<lparr>matchAt = rxMatcher ignoreCase r, global = g\<rparr>"

fun seqs :: "rx list \<Rightarrow> rx" where
  "seqs [] = Lit []"
| "seqs [r] = r"
| "seqs (r # rs) = Seq r (seqs rs)"

fun alts :: "rx list \<Rightarrow> rx" where
  "alts [] = Lit []"
| "alts [r] = r"
| "alts (r # rs) = Alt r (alts rs)"

text \<open>
  \<open>new RegExp(source, 'g')\<close> is modelled on the sources made of characters that stand for
  themselves and of backslash-escaped syntax characters; for any other source the model
  has no answer (\<open>None\<close>).
\<close>

definition isSyntaxChar :: "char \<Rightarrow> bool" where
  "isSyntaxChar c = (c \<in> set (''.*+?^${}()|[]'' @ [CHR 0x5C]))"

fun parseLiteralSource :: "string \<Rightarrow> string option" where
  "parseLiteralSource [] = Some []"
| "parseLiteralSource (c # cs) =
     (if c = CHR 0x5C then
        (case cs of
           [] \<Rightarrow> None
         | d # ds \<Rightarrow> if isSyntaxChar d then map_option ((#) d) (parseLiteralSource ds) else None)
      else if isSyntaxChar c then None
      else map_option ((#) c) (parseLiteralSource cs))"

definition newRegExp :: "string \<Rightarrow> bool \<Rightarrow> regexp option" where
  "newRegExp source g = map_option (\<lambda>l. RegExp (Lit l) False g) (parseLiteralSource source)"

section \<open>secret-guard.ts\<close>

record SecretPattern =
  name :: string
  pattern :: regexp
  description :: "string option"

text \<open>\<open>preserveLength\<close> is a \<open>number\<close>; the model takes the integers.\<close>

record SecretGuardConfig =
  enabled :: bool
  customPatterns :: "SecretPattern list"
  redactionText :: string
  preservePartial :: bool
  preserveLength :: int

text \<open>The two private fields of the class \<open>SecretGuard\<close>.\<close>

record SecretGuard =
  config :: SecretGuardConfig
  patterns :: "SecretPattern list"

definition isKeyChar :: "char \<Rightarrow> bool" where
  "isKeyChar c = (isLower c \<or> isUpper c \<or> isDigit c \<or> c = CHR ''_'' \<or> c = CHR ''-'')"

definition isQuote :: "char \<Rightarrow> bool" where
  "isQuote c = (c = CHR 0x27 \<or> c = CHR 0x22)"

definition isAssign :: "char \<Rightarrow> bool" where
  "isAssign c = (c = CHR ''='' \<or> c = CHR '':'')"

definition isSpaceOrQuote :: "char \<Rightarrow> bool" where
  "isSpaceOrQuote c = (isSpace c \<or> isQuote c)"

text \<open>
  The tail shared by the assignment patterns:
  \<open>[=:]\s*['"]?([^\s'"]{n,})['"]?\<close>.
\<close>

definition assignedValue :: "nat \<Rightarrow> rx list" where
  "assignedValue n =
     [Cls False isAssign, Rep 0 None False isSpace, Opt (Cls False isQuote),
      Rep n None True isSpaceOrQuote, Opt (Cls False isQuote)]"

definition DEFAULT_SECRET_PATTERNS :: "SecretPattern list" where
  "DEFAULT_SECRET_PATTERNS =
     [\<lparr>name = ''api-key'',
       pattern = RegExp (seqs
         [WordB,
          Alt (seqs [Lit ''api'', Opt (Cls False (\<lambda>c. c = CHR ''_'' \<or> c = CHR ''-'')), Lit ''key''])
              (Lit ''apikey''),
          Cls False isAssign, Rep 0 None False isSpace, Opt (Cls False isQuote),
          Rep 20 None False isKeyChar, Opt (Cls False isQuote)]) True True,
       description = Some ''API keys in various formats''\<rparr>,
      \<lparr>name = ''bearer-token'',
       pattern = RegExp (seqs
         [WordB, Lit ''bearer'', Rep 1 None False isSpace,
          Rep 20 None False (\<lambda>c. isKeyChar c \<or> c = CHR ''.'')]) True True,
       description = Some ''Bearer tokens in authorization headers''\<rparr>,
      \<lparr>name = ''aws-key'',
       pattern = RegExp (seqs
         [WordB, Lit ''AKIA'', Rep 16 (Some 16) False (\<lambda>c. isDigit c \<or> isUpper c), WordB])
         False True,
       description = Some ''AWS Access Key IDs''\<rparr>,
      \<lparr>name = ''aws-secret'',
       pattern = RegExp (seqs
         [WordB,
          Rep 40 (Some 40) False
            (\<lambda>c. isLower c \<or> isUpper c \<or> isDigit c \<or> c = CHR ''+'' \<or> c = CHR ''/''),
          WordB]) False True,
       description = Some ''Potential AWS Secret Access Keys''\<rparr>,
      \<lparr>name = ''password'',
       pattern = RegExp (seqs
         ([WordB, alts [Lit ''password'', Lit ''passwd'', Lit ''pwd'']] @ assignedValue 4))
         True True,
       description = Some ''Password values''\<rparr>,
      \<lparr>name = ''secret'',
       pattern = RegExp (seqs
         ([WordB, alts [Lit ''secret'', Lit ''token'', Lit ''credential'']] @ assignedValue 8))
         True True,
       description = Some ''Generic secrets and tokens''\<rparr>,
      \<lparr>name = ''private-key'',
       pattern = RegExp (seqs
         [Lit ''-----BEGIN'', Rep 1 None False isSpace,
          Opt (Seq (Lit ''RSA'') (Rep 1 None False isSpace)),
          Lit ''PRIVATE'', Rep 1 None False isSpace, Lit ''KEY-----'',
          LazyRep 0 None False (\<lambda>c. True),
          Lit ''-----END'', Rep 1 None False isSpace,
          Opt (Seq (Lit ''RSA'') (Rep 1 None False isSpace)),
          Lit ''PRIVATE'', Rep 1 None False isSpace, Lit ''KEY-----'']) False True,
       description = Some ''Private keys in PEM format''\<rparr>,
      \<lparr>name = ''jwt'',
       pattern = RegExp (seqs
         [WordB, Lit ''eyJ'', Rep 0 None False isKeyChar, Lit ''.eyJ'',
          Rep 0 None False isKeyChar, Lit ''.'', Rep 0 None False isKeyChar]) False True,
       description = Some ''JSON Web Tokens''\<rparr>,
      \<lparr>name = ''connection-string'',
       pattern = RegExp (seqs
         [WordB, alts [Lit ''mongodb'', Lit ''postgres'', Lit ''mysql'', Lit ''redis''],
          Lit ''://'', Rep 1 None True isSpace]) True True,
       description = Some ''Database connection strings''\<rparr>,
      \<lparr>name = ''generic-secret-env'',
       pattern = RegExp (seqs
         ([WordB, Rep 1 None False (\<lambda>c. isUpper c \<or> c = CHR ''_''),
           alts [Lit ''KEY'', Lit ''SECRET'', Lit ''TOKEN'', Lit ''PASSWORD'', Lit ''CREDENTIAL'']]
          @ assignedValue 8)) False True,
       description = Some ''Environment variable style secrets''\<rparr>]"

definition SecretGuard_DEFAULT_CONFIG :: SecretGuardConfig where
  "SecretGuard_DEFAULT_CONFIG =
     \<lparr>enabled = True, customPatterns = [], redactionText = ''[REDACTED]'',
      preservePartial = False, preserveLength = 4\<rparr>"

text \<open>
  A \<open>Partial<Config>\<close> argument, spread over the defaults as in
  \<open>{ ...DEFAULT_CONFIG, ...config }\<close>, is modelled by the update it performs on the
  default record; the empty object is the identity.
\<close>

definition newSecretGuard :: "(SecretGuardConfig \<Rightarrow> SecretGuardConfig) \<Rightarrow> SecretGuard" where
  "newSecretGuard partial =
     (let cfg = partial SecretGuard_DEFAULT_CONFIG
      in \<lparr>config = cfg, patterns = DEFAULT_SECRET_PATTERNS @ customPatterns cfg\<rparr>)"

text \<open>
  \<open>String.prototype.slice(start)\<close> with one argument: a negative start counts from the end,
  and the start is clamped to the string.
\<close>

definition slice :: "string \<Rightarrow> int \<Rightarrow> string" where
  "slice s start =
     (let len = int (length s);
          from = (if start < 0 then max (len + start) 0 else min start len)
      in drop (nat from) s)"

definition createRedaction :: "SecretGuardConfig \<Rightarrow> string \<Rightarrow> string" where
  "createRedaction cfg match =
     (if preservePartial cfg \<and> int (length match) > preserveLength cfg
      then (let suffix = slice match (- preserveLength cfg)
            in redactionText cfg @ ''...'' @ suffix)
      else redactionText cfg)"

text \<open>The loop of \<open>redact\<close> over \<open>this.patterns\<close>; the callback receives the match only.\<close>

fun redactLoop :: "SecretGuardConfig \<Rightarrow> SecretPattern list \<Rightarrow> string \<Rightarrow> string" where
  "redactLoop cfg [] result = result"
| "redactLoop cfg (p # ps) result =
     redactLoop cfg ps
       (replaceWith (pattern p) (\<lambda>match caps preceding following. createRedaction cfg match) result)"

definition SecretGuard_redact :: "SecretGuard \<Rightarrow> string \<Rightarrow> string" where
  "SecretGuard_redact g input =
     (if \<not> enabled (config g) \<or> input = [] then input
      else redactLoop (config g) (patterns g) input)"

fun containsLoop :: "SecretPattern list \<Rightarrow> string \<Rightarrow> bool" where
  "containsLoop [] input = False"
| "containsLoop (p # ps) input = (if test (pattern p) input then True else containsLoop ps input)"

definition containsSecrets :: "SecretGuard \<Rightarrow> string \<Rightarrow> bool" where
  "containsSecrets g input =
     (if \<not> enabled (config g) \<or> input = [] then False
      else containsLoop (patterns g) input)"

definition addPattern :: "SecretGuard \<Rightarrow> SecretPattern \<Rightarrow> SecretGuard" where
  "addPattern g p = g\<lparr>patterns := patterns g @ [p]\<rparr>"

text \<open>\<open>removePattern\<close> returns its boolean and the updated guard.\<close>

definition removePattern :: "SecretGuard \<Rightarrow> string \<Rightarrow> bool \<times> SecretGuard" where
  "removePattern g nm =
     (let initialLength = length (patterns g);
          g' = g\<lparr>patterns := filter (\<lambda>p. name p \<noteq> nm) (patterns g)\<rparr>
      in (length (patterns g') < initialLength, g'))"

definition getPatterns :: "SecretGuard \<Rightarrow> SecretPattern list" where
  "getPatterns g = patterns g"

text \<open>Two custom patterns that share one name, used as sample input.\<close>

definition customA :: SecretPattern where
  "customA = \<lparr>name = ''custom'', pattern = RegExp (Lit ''CUSTOM-A'') False True,
              description = None\<rparr>"

definition customB :: SecretPattern where
  "customB = \<lparr>name = ''custom'', pattern = RegExp (Lit ''CUSTOM-B'') False True,
              description = None\<rparr>"

section \<open>path-sanitizer.ts\<close>

record PathPattern =
  pattern :: regexp
  replacement :: string

record PathSanitizerConfig =
  enabled :: bool
  basePaths :: "string list"
  basePathReplacement :: string
  redactSystemPaths :: bool
  customPatterns :: "PathPattern list"

record PathSanitizer =
  config :: PathSanitizerConfig

definition PathSanitizer_DEFAULT_CONFIG :: PathSanitizerConfig where
  "PathSanitizer_DEFAULT_CONFIG =
     \<lparr>enabled = True, basePaths = [], basePathReplacement = ''[PATH]'',
      redactSystemPaths = True, customPatterns = []\<rparr>"

definition isUserChar :: "char \<Rightarrow> bool" where
  "isUserChar c = (isLower c \<or> isUpper c \<or> isDigit c \<or> c = CHR ''_'' \<or> c = CHR ''-'')"

definition isTempChar :: "char \<Rightarrow> bool" where
  "isTempChar c =
     (isLower c \<or> isUpper c \<or> isDigit c \<or> c = CHR ''_'' \<or> c = CHR ''.'' \<or> c = CHR ''-'')"

definition SYSTEM_PATH_PATTERNS :: "PathPattern list" where
  "SYSTEM_PATH_PATTERNS =
     [\<lparr>pattern = RegExp (Seq (Lit ''/home/'') (Rep 1 None False isUserChar)) False True,
       replacement = ''/home/[USER]''\<rparr>,
      \<lparr>pattern = RegExp (Seq (Lit ''/Users/'') (Rep 1 None False isUserChar)) False True,
       replacement = ''/Users/[USER]''\<rparr>,
      \<lparr>pattern = RegExp (Seq (Lit (''C:'' @ [CHR 0x5C] @ ''Users'' @ [CHR 0x5C]))
                             (Rep 1 None False isUserChar)) True True,
       replacement = ''C:'' @ [CHR 0x5C] @ ''Users'' @ [CHR 0x5C] @ ''[USER]''\<rparr>,
      \<lparr>pattern = RegExp (Seq (Lit ''/tmp/'') (Rep 1 None False isTempChar)) False True,
       replacement = ''/tmp/[TEMP]''\<rparr>,
      \<lparr>pattern = RegExp (Seq (Lit ''/var/tmp/'') (Rep 1 None False isTempChar)) False True,
       replacement = ''/var/tmp/[TEMP]''\<rparr>,
      \<lparr>pattern = RegExp (Seq (Lit ''/node_modules/'')
                             (Rep 1 None True (\<lambda>c. isSpace c \<or> c = CHR '':''))) False True,
       replacement = ''/node_modules/[MODULE]''\<rparr>,
      \<lparr>pattern = RegExp (Seq (Lit ''/proc/'') (Rep 1 None False isDigit)) False True,
       replacement = ''/proc/[PID]''\<rparr>]"

text \<open>
  \<open>basePath.replace(/[.*+?^${}()|[\]\\]/g, '\\$&')\<close>: the class of the characters that are
  escaped, and the replacement string, a backslash followed by \<open>$&\<close>.
\<close>

definition isEscapedChar :: "char \<Rightarrow> bool" where
  "isEscapedChar c = (c \<in> set (''.*+?^${}()|[]'' @ [CHR 0x5C]))"

definition escapeRegExp :: "string \<Rightarrow> string" where
  "escapeRegExp basePath =
     replaceWith (RegExp (Cls False isEscapedChar) False True)
       (template [CHR 0x5C, CHR ''$'', CHR ''&'']) basePath"

text \<open>
  The first loop of \<open>redact\<close>, over \<open>this.config.basePaths\<close>. The result is \<open>None\<close> when
  the source handed to \<open>new RegExp\<close> is outside the modelled sources.
\<close>

fun basePathLoop :: "string \<Rightarrow> string list \<Rightarrow> string \<Rightarrow> string option" where
  "basePathLoop marker [] result = Some result"
| "basePathLoop marker (basePath # rest) result =
     (if basePath \<noteq> [] then
        (let escaped = escapeRegExp basePath
         in case newRegExp escaped True of
              None \<Rightarrow> None
            | Some re \<Rightarrow> basePathLoop marker rest (replaceWith re (template marker) result))
      else basePathLoop marker rest result)"

text \<open>The loop over the custom patterns, and the same loop over \<open>SYSTEM_PATH_PATTERNS\<close>.\<close>

fun patternLoop :: "PathPattern list \<Rightarrow> string \<Rightarrow> string" where
  "patternLoop [] result = result"
| "patternLoop (p # ps) result =
     patternLoop ps (replaceWith (pattern p) (template (replacement p)) result)"

definition PathSanitizer_redact :: "PathSanitizer \<Rightarrow> string \<Rightarrow> string option" where
  "PathSanitizer_redact this input =
     (if \<not> enabled (config this) \<or> input = [] then Some input
      else
        (case basePathLoop (basePathReplacement (config this)) (basePaths (config this)) input of
           None \<Rightarrow> None
         | Some r1 \<Rightarrow>
             (let r2 = patternLoop (customPatterns (config this)) r1
              in Some (if redactSystemPaths (config this)
                       then patternLoop SYSTEM_PATH_PATTERNS r2 else r2))))"

text \<open>
  \<open>redact\<close> reads \<open>this.config.basePaths\<close> when it is called: the record holds the
  elements that array has at that time, whoever put them there (the configuration, the
  detection of the constructor, \<open>addBasePath\<close>).
\<close>

section \<open>sanitizer.ts\<close>

datatype Environment = Production | Development | Test

record ErrorSanitizerConfig =
  enabled :: bool
  environment :: Environment
  includeCorrelationId :: bool
  maxMessageLength :: int
  sanitizeStackTraces :: bool

text \<open>
  \<open>process.env.NODE_ENV\<close> is read once, when the module is loaded, and cast to the
  three-valued type of \<open>environment\<close>; the model takes the values of that type, \<open>None\<close>
  being the unset (or empty) variable.
\<close>

definition ErrorSanitizer_DEFAULT_CONFIG :: "Environment option \<Rightarrow> ErrorSanitizerConfig" where
  "ErrorSanitizer_DEFAULT_CONFIG NODE_ENV =
     \<lparr>enabled = True,
      environment = (case NODE_ENV of Some e \<Rightarrow> e | None \<Rightarrow> Development),
      includeCorrelationId = True,
      maxMessageLength = 500,
      sanitizeStackTraces = True\<rparr>"

text \<open>
  \<open>GENERIC_MESSAGES\<close> is an object literal: its own properties are the nine entries of
  the source, and it inherits the properties of \<open>Object.prototype\<close>. The \<open>in\<close> operator
  and the property read \<open>GENERIC_MESSAGES[error.name]\<close> both follow the prototype chain,
  so the value read is a string for an own property and a built-in function (of the given
  name and \<open>length\<close>) or the prototype object for an inherited one.
\<close>

datatype jsvalue = JString string | JFunction string nat | JObject | JUndefined

definition GENERIC_MESSAGES :: "(string \<times> string) list" where
  "GENERIC_MESSAGES =
     [(''TimeoutError'', ''The operation timed out. Please try again.''),
      (''ValidationError'', ''The provided data is invalid.''),
      (''AuthenticationError'', ''Authentication failed.''),
      (''AuthorizationError'', ''You do not have permission to perform this action.''),
      (''NotFoundError'', ''The requested resource was not found.''),
      (''RateLimitError'', ''Too many requests. Please slow down.''),
      (''NetworkError'', ''A network error occurred. Please check your connection.''),
      (''DatabaseError'', ''A database error occurred. Please try again.''),
      (''ConfigurationError'', ''A configuration error occurred.'')]"

definition ObjectPrototype :: "(string \<times> jsvalue) list" where
  "ObjectPrototype =
     [(''constructor'', JFunction ''Object'' 1),
      (''__defineGetter__'', JFunction ''__defineGetter__'' 2),
      (''__defineSetter__'', JFunction ''__defineSetter__'' 2),
      (''hasOwnProperty'', JFunction ''hasOwnProperty'' 1),
      (''__lookupGetter__'', JFunction ''__lookupGetter__'' 1),
      (''__lookupSetter__'', JFunction ''__lookupSetter__'' 1),
      (''isPrototypeOf'', JFunction ''isPrototypeOf'' 1),
      (''propertyIsEnumerable'', JFunction ''propertyIsEnumerable'' 1),
      (''toString'', JFunction ''toString'' 0),
      (''valueOf'', JFunction ''valueOf'' 0),
      (''__proto__'', JObject),
      (''toLocaleString'', JFunction ''toLocaleString'' 0)]"

definition inGenericMessages :: "string \<Rightarrow> bool" where
  "inGenericMessages key =
     (key \<in> set (map fst GENERIC_MESSAGES) \<or> key \<in> set (map fst ObjectPrototype))"

definition readGenericMessages :: "string \<Rightarrow> jsvalue" where
  "readGenericMessages key =
     (case map_of GENERIC_MESSAGES key of
        Some s \<Rightarrow> JString s
      | None \<Rightarrow> (case map_of ObjectPrototype key of Some v \<Rightarrow> v | None \<Rightarrow> JUndefined))"

record KeywordGroup =
  keywords' :: "string list"
  message :: string

definition MESSAGE_KEYWORDS :: "KeywordGroup list" where
  "MESSAGE_KEYWORDS =
     [\<lparr>keywords' = [''timeout'', ''timed out'', ''deadline exceeded''],
       message = ''The operation timed out. Please try again.''\<rparr>,
      \<lparr>keywords' = [''not found'', ''does not exist'', ''no such file'', ''enoent''],
       message = ''The requested resource was not found.''\<rparr>,
      \<lparr>keywords' = [''permission'', ''access denied'', ''forbidden'', ''eacces'', ''eperm''],
       message = ''You do not have permission to perform this action.''\<rparr>,
      \<lparr>keywords' = [''invalid'', ''validation'', ''malformed''],
       message = ''The provided data is invalid.''\<rparr>,
      \<lparr>keywords' = [''network'', ''connection'', ''socket'', ''econnrefused'', ''econnreset''],
       message = ''A network error occurred. Please check your connection.''\<rparr>,
      \<lparr>keywords' = [''authentication'', ''unauthorized'', ''unauthenticated'', ''login''],
       message = ''Authentication failed.''\<rparr>,
      \<lparr>keywords' = [''rate limit'', ''too many requests'', ''throttle''],
       message = ''Too many requests. Please slow down.''\<rparr>,
      \<lparr>keywords' = [''database'', ''query'', ''sql'', ''db error''],
       message = ''A database error occurred. Please try again.''\<rparr>]"

record Error =
  name :: string
  message :: string
  stack :: "string option"

text \<open>The loop of \<open>getGenericMessage\<close> over \<open>MESSAGE_KEYWORDS\<close>, ending in the default message.\<close>

fun keywordLoop :: "KeywordGroup list \<Rightarrow> string \<Rightarrow> string" where
  "keywordLoop [] msg = ''An unexpected error occurred. Please try again.''"
| "keywordLoop (g # gs) msg =
     (if list_ex (\<lambda>keyword. includes_str msg keyword) (keywords' g)
      then KeywordGroup.message g
      else keywordLoop gs msg)"

definition getGenericMessage :: "Error \<Rightarrow> jsvalue" where
  "getGenericMessage error =
     (if inGenericMessages (name error) then readGenericMessages (name error)
      else JString (keywordLoop MESSAGE_KEYWORDS (toLowerCase (message error))))"

text \<open>
  \<open>Number.prototype.toString(36)\<close> on an integer, \<open>padStart\<close> and the two-argument
  \<open>substring\<close>, whose arguments are clamped to the string and swapped when out of order.
\<close>

definition digit36 :: "nat \<Rightarrow> char" where
  "digit36 d = ''0123456789abcdefghijklmnopqrstuvwxyz'' ! d"

function toString36nat :: "nat \<Rightarrow> string" where
  "toString36nat n =
     (if n < 36 then [digit36 n] else toString36nat (n div 36) @ [digit36 (n mod 36)])"
  by pat_completeness auto
termination
  by (relation "measure (\<lambda>n. n)") auto

declare toString36nat.simps [simp del]

definition toString36 :: "int \<Rightarrow> string" where
  "toString36 i = (if i < 0 then CHR ''-'' # toString36nat (nat (- i)) else toString36nat (nat i))"

definition padStart :: "string \<Rightarrow> nat \<Rightarrow> char \<Rightarrow> string" where
  "padStart s targetLength c = replicate (targetLength - length s) c @ s"

definition substring :: "string \<Rightarrow> int \<Rightarrow> int \<Rightarrow> string" where
  "substring s a b =
     (let len = int (length s);
          fa = min (max a 0) len;
          fb = min (max b 0) len;
          lo = min fa fb;
          hi = max fa fb
      in take (nat (hi - lo)) (drop (nat lo) s))"

text \<open>
  The fields of the class \<open>ErrorSanitizer\<close>. \<open>secretGuard\<close> is a reference to a guard
  object; the record holds the state that object has when a method of the sanitizer
  runs. The counter is a \<open>number\<close> that starts at 0 and is only ever incremented by one;
  it is modelled by a natural number (a \<open>number\<close> counts exactly up to \<open>2^53\<close>).
\<close>

record ErrorSanitizer =
  config :: ErrorSanitizerConfig
  secretGuard :: SecretGuard
  correlationCounter :: nat

text \<open>
  What one call reads of its surroundings: \<open>Date.now()\<close>, the text
  \<open>Math.random().toString(36)\<close>, the time of \<open>new Date()\<close>, the stack that the
  \<open>new Error(...)\<close> of \<open>createSafeError\<close> captures, and the stack that the
  \<open>new Error(...)\<close> of \<open>sanitizeUnknownError\<close> captures.
\<close>

record Readings =
  dateNow :: int
  mathRandom36 :: string
  newDate :: int
  capturedStack :: string
  wrappedStack :: string

record 'ctx InternalErrorDetails =
  correlationId :: string
  originalMessage :: string
  originalStack :: "string option"
  context' :: "'ctx option"
  timestamp :: int

text \<open>
  \<open>message\<close> is declared a string; at run time it holds whatever \<open>getGenericMessage\<close>
  returned.
\<close>

record ExternalError =
  message :: jsvalue
  correlationId :: "string option"
  type' :: string

record 'ctx SanitizedErrorResult =
  external :: ExternalError
  internal :: "'ctx InternalErrorDetails"

datatype exception = TypeError

definition newErrorSanitizer ::
  "Environment option \<Rightarrow> (ErrorSanitizerConfig \<Rightarrow> ErrorSanitizerConfig) \<Rightarrow> SecretGuard
   \<Rightarrow> ErrorSanitizer" where
  "newErrorSanitizer NODE_ENV partial guard =
     \<lparr>config = partial (ErrorSanitizer_DEFAULT_CONFIG NODE_ENV),
      secretGuard = guard,
      correlationCounter = 0\<rparr>"

definition generateCorrelationId :: "ErrorSanitizer \<Rightarrow> Readings \<Rightarrow> string \<times> ErrorSanitizer" where
  "generateCorrelationId this rd =
     (let timestamp = toString36 (dateNow rd);
          this' = this\<lparr>correlationCounter := correlationCounter this + 1\<rparr>;
          counter = padStart (toString36 (int (correlationCounter this'))) 4 CHR ''0'';
          random = substring (mathRandom36 rd) 2 6
      in (''err-'' @ timestamp @ ''-'' @ counter @ ''-'' @ random, this'))"

text \<open>
  The truncation step of \<open>sanitize\<close>:
  \<open>if (m.length > max) m = m.substring(0, max) + '...'\<close>. A function has a \<open>length\<close> (its
  number of parameters) but no \<open>substring\<close>, so the call throws a \<open>TypeError\<close> when that
  length exceeds the limit; the \<open>length\<close> of the prototype object is \<open>undefined\<close>, and the
  comparison is false.
\<close>

definition truncateMessage :: "int \<Rightarrow> jsvalue \<Rightarrow> exception + jsvalue" where
  "truncateMessage maxLength v =
     (case v of
        JString s \<Rightarrow>
          if int (length s) > maxLength
          then Inr (JString (substring s 0 maxLength @ ''...''))
          else Inr (JString s)
      | JFunction f arity \<Rightarrow> if int arity > maxLength then Inl TypeError else Inr (JFunction f arity)
      | JObject \<Rightarrow> Inr JObject
      | JUndefined \<Rightarrow> Inl TypeError)"

text \<open>
  The environment check of \<open>sanitize\<close>: the redacted original when sanitization is
  disabled or the environment is \<open>development\<close>, the generic message otherwise.
\<close>

definition externalMessage :: "ErrorSanitizer \<Rightarrow> Error \<Rightarrow> jsvalue" where
  "externalMessage this error =
     (if \<not> enabled (config this) \<or> environment (config this) = Development
      then JString (SecretGuard_redact (secretGuard this) (Error.message error))
      else getGenericMessage error)"

definition sanitize ::
  "ErrorSanitizer \<Rightarrow> Readings \<Rightarrow> Error \<Rightarrow> 'ctx option
   \<Rightarrow> (exception + 'ctx SanitizedErrorResult) \<times> ErrorSanitizer" where
  "sanitize this rd error ctx =
     (let (cid, this') = generateCorrelationId this rd;
          internal = \<lparr>InternalErrorDetails.correlationId = cid,
                      originalMessage = Error.message error,
                      originalStack = stack error,
                      context' = ctx,
                      timestamp = newDate rd\<rparr>
      in case truncateMessage (maxMessageLength (config this)) (externalMessage this error) of
           Inl e \<Rightarrow> (Inl e, this')
         | Inr m \<Rightarrow>
             (Inr \<lparr>external = \<lparr>message = m,
                                ExternalError.correlationId =
                                  (if includeCorrelationId (config this) then Some cid else None),
                                type' = name error\<rparr>,
                    internal = internal\<rparr>,
              this'))"

text \<open>
  \<open>new Error(external.message)\<close> converts its argument to a string; for a built-in
  function that is the text Node prints for it.
\<close>

definition ToString :: "jsvalue \<Rightarrow> string" where
  "ToString v =
     (case v of
        JString s \<Rightarrow> s
      | JFunction f arity \<Rightarrow> ''function '' @ f @ ''() { [native code] }''
      | JObject \<Rightarrow> ''[object Object]''
      | JUndefined \<Rightarrow> [])"

record SafeError = Error +
  correlationId :: "string option"

definition createSafeError ::
  "ErrorSanitizer \<Rightarrow> Readings \<Rightarrow> Error \<Rightarrow> 'ctx option
   \<Rightarrow> (exception + SafeError) \<times> ErrorSanitizer" where
  "createSafeError this rd error ctx =
     (case sanitize this rd error ctx of
        (Inl e, this') \<Rightarrow> (Inl e, this')
      | (Inr r, this') \<Rightarrow>
          (Inr \<lparr>name = type' (external r),
                 Error.message = ToString (ExternalError.message (external r)),
                 stack = (if sanitizeStackTraces (config this)
                             \<and> environment (config this) = Production
                          then None else Some (capturedStack rd)),
                 correlationId = Some (InternalErrorDetails.correlationId (internal r))\<rparr>,
           this'))"

definition sanitizeMessage :: "ErrorSanitizer \<Rightarrow> string \<Rightarrow> string" where
  "sanitizeMessage this msg =
     (if \<not> enabled (config this) then msg
      else
        (let result = SecretGuard_redact (secretGuard this) msg
         in if int (length result) > maxMessageLength (config this)
            then substring result 0 (maxMessageLength (config this)) @ ''...''
            else result))"

text \<open>
  The argument of \<open>sanitizeUnknownError\<close> has type \<open>unknown\<close>: an \<open>Error\<close>, a string, or
  any other value.
\<close>

datatype unknown = ErrorValue Error | StringValue string | OtherValue

text \<open>
  The wrapping of a value that is not an \<open>Error\<close>: \<open>new Error(errorMessage)\<close>, which
  captures a stack, renamed \<open>UnknownError\<close>.
\<close>

definition wrapUnknown :: "Readings \<Rightarrow> unknown \<Rightarrow> Error" where
  "wrapUnknown rd v =
     (case v of
        ErrorValue e \<Rightarrow> e
      | StringValue s \<Rightarrow>
          \<lparr>name = ''UnknownError'', Error.message = s, stack = Some (wrappedStack rd)\<rparr>
      | OtherValue \<Rightarrow>
          \<lparr>name = ''UnknownError'', Error.message = ''An unknown error occurred'',
           stack = Some (wrappedStack rd)\<rparr>)"

text \<open>
  The two module-level variables, and the accessors that create the global instances on
  first use.
\<close>

record Globals =
  globalSecretGuard :: "SecretGuard option"
  globalErrorSanitizer :: "ErrorSanitizer option"

definition getSecretGuard :: "Globals \<Rightarrow> SecretGuard \<times> Globals" where
  "getSecretGuard gl =
     (case globalSecretGuard gl of
        Some g \<Rightarrow> (g, gl)
      | None \<Rightarrow> (let g = newSecretGuard id in (g, gl\<lparr>globalSecretGuard := Some g\<rparr>)))"

definition getErrorSanitizer :: "Environment option \<Rightarrow> Globals \<Rightarrow> ErrorSanitizer \<times> Globals" where
  "getErrorSanitizer NODE_ENV gl =
     (case globalErrorSanitizer gl of
        Some s \<Rightarrow> (s, gl)
      | None \<Rightarrow>
          (let (g, gl') = getSecretGuard gl;
               s = newErrorSanitizer NODE_ENV id g
           in (s, gl'\<lparr>globalErrorSanitizer := Some s\<rparr>)))"

definition configureErrorSanitizer ::
  "Environment option \<Rightarrow> (ErrorSanitizerConfig \<Rightarrow> ErrorSanitizerConfig) \<Rightarrow> Globals \<Rightarrow> Globals" where
  "configureErrorSanitizer NODE_ENV partial gl =
     (let (g, gl') = getSecretGuard gl
      in gl'\<lparr>globalErrorSanitizer := Some (newErrorSanitizer NODE_ENV partial g)\<rparr>)"

definition sanitizeUnknownError ::
  "Environment option \<Rightarrow> Globals \<Rightarrow> Readings \<Rightarrow> unknown \<Rightarrow> 'ctx option
   \<Rightarrow> (exception + SafeError) \<times> Globals" where
  "sanitizeUnknownError NODE_ENV gl rd error ctx =
     (let (sanitizer, gl') = getErrorSanitizer NODE_ENV gl;
          (result, sanitizer') =
             (case error of
                ErrorValue e \<Rightarrow> createSafeError sanitizer rd e ctx
              | _ \<Rightarrow> createSafeError sanitizer rd (wrapUnknown rd error) ctx)
      in (result, gl'\<lparr>globalErrorSanitizer := Some sanitizer'\<rparr>))"

section \<open>Definitions used to state the properties\<close>

text \<open>
  The reading of \<open>removePattern\<close> as "remove the first pattern of that name", written
  out so that it can be compared with what the method does.
\<close>

fun removeFirstNamed :: "string \<Rightarrow> SecretPattern list \<Rightarrow> SecretPattern list" where
  "removeFirstNamed nm [] = []"
| "removeFirstNamed nm (p # ps) =
     (if SecretPattern.name p = nm then ps else p # removeFirstNamed nm ps)"

text \<open>
  The outcome of a call of \<open>sanitize\<close> as far as the external message goes: the exception
  thrown, or \<open>external.message\<close>.
\<close>

definition messageOf ::
  "(exception + 'ctx SanitizedErrorResult) \<times> ErrorSanitizer \<Rightarrow> exception + jsvalue" where
  "messageOf out =
     (case fst out of Inl e \<Rightarrow> Inl e | Inr r \<Rightarrow> Inr (ExternalError.message (external r)))"

text \<open>The fixed generic strings: those of the two tables and the default.\<close>

definition genericStrings :: "string list" where
  "genericStrings =
     map snd GENERIC_MESSAGES @ map KeywordGroup.message MESSAGE_KEYWORDS
     @ [''An unexpected error occurred. Please try again.'']"

text \<open>
  The classifier's resolution order in the words of the specification: the exact type
  name in the static table; else the first keyword group one of whose keywords occurs in
  the lower-cased message; else the default.
\<close>

definition classify :: "string \<Rightarrow> string \<Rightarrow> string" where
  "classify typeName msg =
     (case map_of GENERIC_MESSAGES typeName of
        Some g \<Rightarrow> g
      | None \<Rightarrow>
          (case List.find (\<lambda>g. \<exists>k \<in> set (keywords' g). sublist k (toLowerCase msg))
                  MESSAGE_KEYWORDS of
             Some g \<Rightarrow> KeywordGroup.message g
           | None \<Rightarrow> ''An unexpected error occurred. Please try again.''))"

text \<open>Sample surroundings of a call, and sanitizers built by the constructor.\<close>

definition sampleReadings :: Readings where
  "sampleReadings =
     \<lparr>dateNow = 1700000, mathRandom36 = ''0.4fzyo82mvyr'', newDate = 1700001,
      capturedStack = ''Error'', wrappedStack = ''Error''\<rparr>"

definition sanitizerFor :: "Environment \<Rightarrow> int \<Rightarrow> ErrorSanitizer" where
  "sanitizerFor env maxLength =
     newErrorSanitizer None (\<lambda>c. c\<lparr>environment := env, maxMessageLength := maxLength\<rparr>)
       (newSecretGuard id)"

text \<open>
  Sequential calls of \<open>sanitize\<close> on one instance, each with its own surroundings, error
  and context: the outcomes in order. \<open>returnedIds\<close> lists the correlation ids of the
  results returned.
\<close>

fun sanitizeAll ::
  "ErrorSanitizer \<Rightarrow> (Readings \<times> Error \<times> 'ctx option) list
   \<Rightarrow> (exception + 'ctx SanitizedErrorResult) list" where
  "sanitizeAll this [] = []"
| "sanitizeAll this ((rd, error, ctx) # calls) =
     (let (r, this') = sanitize this rd error ctx in r # sanitizeAll this' calls)"

fun returnedIds :: "(exception + 'ctx SanitizedErrorResult) list \<Rightarrow> string list" where
  "returnedIds [] = []"
| "returnedIds (Inl e # rs) = returnedIds rs"
| "returnedIds (Inr r # rs) = InternalErrorDetails.correlationId (internal r) # returnedIds rs"

text \<open>
  The counter segment of a correlation id, and the ids that carry the counter value \<open>n\<close>:
  \<open>err-\<close>, a timestamp, the counter segment of \<open>n\<close>, and any random suffix.
\<close>

definition counterSegment :: "nat \<Rightarrow> string" where
  "counterSegment n = padStart (toString36 (int n)) 4 CHR ''0''"

definition hasCounter :: "nat \<Rightarrow> string \<Rightarrow> bool" where
  "hasCounter n s =
     (\<exists>i r. s = ''err-'' @ toString36 i @ ''-'' @ counterSegment n @ ''-'' @ r)"

text \<open>
  Replacing every occurrence of a literal text by a marker, left to right, the search
  resuming after each occurrence replaced: what the first phase of the path redactor is
  said to do with a base path.
\<close>

function replaceLiteral :: "string \<Rightarrow> string \<Rightarrow> string \<Rightarrow> string" where
  "replaceLiteral needle marker [] = []"
| "replaceLiteral needle marker (c # cs) =
     (if needle \<noteq> [] \<and> prefix needle (c # cs)
      then marker @ replaceLiteral needle marker (drop (length needle) (c # cs))
      else c # replaceLiteral needle marker cs)"
  by pat_completeness auto
termination
  by (relation "measure (\<lambda>(needle, marker, s). length s)") auto

text \<open>The three phases of the path redactor, each a pass over its list in order.\<close>

definition basePathPhase :: "string \<Rightarrow> string list \<Rightarrow> string \<Rightarrow> string" where
  "basePathPhase marker paths s =
     fold (\<lambda>basePath r.
             if basePath \<noteq> []
             then replaceWith (RegExp (Lit basePath) False True) (template marker) r
             else r)
          paths s"

definition customPhase :: "PathPattern list \<Rightarrow> string \<Rightarrow> string" where
  "customPhase ps s =
     fold (\<lambda>p r. replaceWith (PathPattern.pattern p) (template (replacement p)) r) ps s"

definition systemPhase :: "bool \<Rightarrow> string \<Rightarrow> string" where
  "systemPhase on s = (if on then customPhase SYSTEM_PATH_PATTERNS s else s)"

text \<open>The module-level variables before any accessor has run.\<close>

definition emptyGlobals :: Globals where
  "emptyGlobals = \<lparr>globalSecretGuard = None, globalErrorSanitizer = None\<rparr>"

section \<open>Secret guard: properties\<close>

lemma filter_shorter_iff: "(length (filter P xs) < length xs) = (\<exists>x\<in>set xs. \<not> P x)"
proof (induction xs)
  case Nil
  show ?case by simp
next
  case (Cons a xs)
  have "length (filter P xs) \<le> length xs" by (rule length_filter_le)
  with Cons show ?case by auto
qed

text \<open>
  Partial preservation for a positive preserve length: a match longer than \<open>N\<close> becomes
  the marker, three dots and the last \<open>N\<close> characters of the match; a match of length at
  most \<open>N\<close> becomes the marker alone.
\<close>

lemma createRedaction_positive:
  assumes "preservePartial cfg" and "0 < preserveLength cfg"
    and "preserveLength cfg < int (length m)"
  shows "createRedaction cfg m =
           redactionText cfg @ ''...'' @ drop (length m - nat (preserveLength cfg)) m"
  using assms by (simp add: createRedaction_def slice_def Let_def nat_diff_distrib' max_def)

lemma createRedaction_short:
  "int (length m) \<le> preserveLength cfg \<Longrightarrow> createRedaction cfg m = redactionText cfg"
  by (simp add: createRedaction_def)

text \<open>
  Claim C5 (partial preservation, \<open>N \<ge> 0\<close>). At \<open>N = 0\<close> the claim asks for the marker
  followed by three dots and the last zero characters of the match. The source computes
  \<open>match.slice(-0)\<close>, which is \<open>match.slice(0)\<close>: with partial preservation on and a
  preserve length of zero, the replacement of every non-empty match ends with the whole
  match.
\<close>

theorem createRedaction_zero_keeps_whole_match:
  "preservePartial cfg \<Longrightarrow> preserveLength cfg = 0 \<Longrightarrow> m \<noteq> [] \<Longrightarrow>
     createRedaction cfg m = redactionText cfg @ ''...'' @ m"
  by (simp add: createRedaction_def slice_def)

text \<open>The default marker and a password assignment.\<close>

theorem createRedaction_zero_keeps_whole_match_witness:
  "createRedaction (SecretGuard_DEFAULT_CONFIG\<lparr>preservePartial := True, preserveLength := 0\<rparr>)
     ''password=hunter2'' = ''[REDACTED]...password=hunter2''"
  using createRedaction_zero_keeps_whole_match
          [of "SecretGuard_DEFAULT_CONFIG\<lparr>preservePartial := True, preserveLength := 0\<rparr>"
              "''password=hunter2''"]
  by (simp add: SecretGuard_DEFAULT_CONFIG_def)

lemma redact_zero_example:
  "SecretGuard_redact
     (newSecretGuard (\<lambda>c. c\<lparr>preservePartial := True, preserveLength := 0\<rparr>))
     ''password=hunter2'' = ''[REDACTED]...password=hunter2''"
  by code_simp

text \<open>
  Claim C6 (disabled is identity). With \<open>enabled = false\<close> in the guard's configuration,
  \<open>redact\<close> returns its input unchanged and \<open>containsSecrets\<close> is false, for every string.
\<close>

theorem disabled_is_identity:
  "\<not> SecretGuardConfig.enabled (SecretGuard.config g) \<Longrightarrow>
     SecretGuard_redact g x = x \<and> containsSecrets g x = False"
  by (simp add: SecretGuard_redact_def containsSecrets_def)

text \<open>
  The disabled guard on an input that the enabled guard redacts and reports.
\<close>

theorem disabled_is_identity_witness:
  "\<not> SecretGuardConfig.enabled
       (SecretGuard.config (newSecretGuard (\<lambda>c. c\<lparr>SecretGuardConfig.enabled := False\<rparr>)))
   \<and> SecretGuard_redact (newSecretGuard (\<lambda>c. c\<lparr>SecretGuardConfig.enabled := False\<rparr>))
         ''password=SuperSecret123!'' = ''password=SuperSecret123!''
   \<and> containsSecrets (newSecretGuard (\<lambda>c. c\<lparr>SecretGuardConfig.enabled := False\<rparr>))
         ''password=SuperSecret123!'' = False
   \<and> SecretGuard_redact (newSecretGuard id) ''password=SuperSecret123!'' = ''[REDACTED]''
   \<and> containsSecrets (newSecretGuard id) ''password=SuperSecret123!''"
proof -
  have h: "\<not> SecretGuardConfig.enabled
             (SecretGuard.config (newSecretGuard (\<lambda>c. c\<lparr>SecretGuardConfig.enabled := False\<rparr>)))"
    by (simp add: newSecretGuard_def SecretGuard_DEFAULT_CONFIG_def)
  have a: "SecretGuard_redact (newSecretGuard id) ''password=SuperSecret123!'' = ''[REDACTED]''"
    by code_simp
  have b: "containsSecrets (newSecretGuard id) ''password=SuperSecret123!''"
    by code_simp
  show ?thesis
    using h a b disabled_is_identity [OF h, of "''password=SuperSecret123!''"] by simp
qed

text \<open>
  Claim C7 (\<open>removePattern\<close>), as the code has it: the call removes every pattern whose
  name equals the given name, keeps the other patterns in their order, leaves the
  configuration alone, and returns true exactly when at least one pattern had that name.
\<close>

theorem removePattern_removes_every_match:
  "fst (removePattern g nm) = (nm \<in> SecretPattern.name ` set (patterns g))
   \<and> patterns (snd (removePattern g nm))
       = filter (\<lambda>p. SecretPattern.name p \<noteq> nm) (patterns g)
   \<and> SecretGuard.config (snd (removePattern g nm)) = SecretGuard.config g"
  by (auto simp add: removePattern_def Let_def filter_shorter_iff)

text \<open>
  Two patterns named \<open>custom\<close> are added to the default guard. One call of
  \<open>removePattern\<close> leaves the ten built-in names and neither of the two; removing the
  first match only would leave the second.
\<close>

theorem removePattern_first_only_counterexample:
  "map SecretPattern.name
     (patterns (snd (removePattern (addPattern (addPattern (newSecretGuard id) customA) customB)
                       ''custom'')))
   = map SecretPattern.name (patterns (newSecretGuard id))
   \<and> map SecretPattern.name
       (removeFirstNamed ''custom''
          (patterns (addPattern (addPattern (newSecretGuard id) customA) customB)))
     = map SecretPattern.name (patterns (newSecretGuard id)) @ [''custom'']
   \<and> fst (removePattern (addPattern (addPattern (newSecretGuard id) customA) customB) ''custom'')"
  by (simp add: removePattern_def addPattern_def newSecretGuard_def SecretGuard_DEFAULT_CONFIG_def
      DEFAULT_SECRET_PATTERNS_def customA_def customB_def Let_def)

theorem removePattern_removes_every_match_witness:
  "fst (removePattern (addPattern (addPattern (newSecretGuard id) customA) customB) ''custom'')
   \<and> length (patterns (snd (removePattern
         (addPattern (addPattern (newSecretGuard id) customA) customB) ''custom''))) = 10
   \<and> fst (removePattern (newSecretGuard id) ''custom'') = False"
  using removePattern_removes_every_match
          [of "addPattern (addPattern (newSecretGuard id) customA) customB" "''custom''"]
        removePattern_removes_every_match [of "newSecretGuard id" "''custom''"]
  by (simp add: addPattern_def newSecretGuard_def SecretGuard_DEFAULT_CONFIG_def
      DEFAULT_SECRET_PATTERNS_def customA_def customB_def)

section \<open>Classifier and orchestrator: properties\<close>

subsection \<open>The classifier\<close>

text \<open>\<open>includes\<close> is the substring test, and the keyword loop finds the first matching group.\<close>

lemma includes_str_sublist: "includes_str s k = sublist k s"
  by (induction s) (auto simp: sublist_Cons_right)

lemma keywordLoop_find:
  "keywordLoop gs m =
     (case List.find (\<lambda>g. \<exists>k \<in> set (keywords' g). sublist k m) gs of
        Some g \<Rightarrow> KeywordGroup.message g
      | None \<Rightarrow> ''An unexpected error occurred. Please try again.'')"
  by (induction gs) (simp_all add: list_ex_iff includes_str_sublist)

lemma keywordLoop_generic:
  "keywordLoop gs m \<in> set (map KeywordGroup.message gs) \<union> {''An unexpected error occurred. Please try again.''}"
  by (induction gs) auto

lemma readGenericMessages_own:
  "key \<notin> fst ` set ObjectPrototype \<Longrightarrow> inGenericMessages key \<Longrightarrow>
     \<exists>g. map_of GENERIC_MESSAGES key = Some g \<and> readGenericMessages key = JString g"
  by (auto simp: inGenericMessages_def readGenericMessages_def split: option.splits
           dest: weak_map_of_SomeI simp: map_of_eq_None_iff)

lemma getGenericMessage_classify:
  assumes "Error.name error \<notin> fst ` set ObjectPrototype"
  shows "getGenericMessage error = JString (classify (Error.name error) (Error.message error))"
proof (cases "inGenericMessages (Error.name error)")
  case True
  from readGenericMessages_own [OF assms True] show ?thesis
    by (auto simp: getGenericMessage_def classify_def True)
next
  case False
  then have "map_of GENERIC_MESSAGES (Error.name error) = None"
    by (simp add: inGenericMessages_def map_of_eq_None_iff)
  with False show ?thesis
    by (simp add: getGenericMessage_def classify_def keywordLoop_find)
qed

lemma classify_generic: "classify n m \<in> set genericStrings"
proof (cases "map_of GENERIC_MESSAGES n")
  case None
  have "keywordLoop MESSAGE_KEYWORDS (toLowerCase m) \<in> set genericStrings"
    using keywordLoop_generic [of MESSAGE_KEYWORDS "toLowerCase m"]
    by (auto simp: genericStrings_def)
  with None show ?thesis by (simp add: classify_def keywordLoop_find)
next
  case (Some g)
  then have "g \<in> snd ` set GENERIC_MESSAGES" by (force dest: map_of_SomeD)
  with Some show ?thesis by (simp add: classify_def genericStrings_def)
qed

lemma genericStrings_length: "g \<in> set genericStrings \<Longrightarrow> length g \<le> 55"
  by (auto simp: genericStrings_def GENERIC_MESSAGES_def MESSAGE_KEYWORDS_def)

subsection \<open>The external message\<close>

text \<open>
  The external message of \<open>sanitize\<close> is the truncation of the message chosen by the
  environment check.
\<close>

lemma messageOf_sanitize:
  "messageOf (sanitize this rd error ctx) =
     truncateMessage (maxMessageLength (config this)) (externalMessage this error)"
  by (simp add: messageOf_def sanitize_def Let_def split_def split: sum.splits)

lemma externalMessage_generic:
  "enabled (config this) \<Longrightarrow> environment (config this) \<noteq> Development \<Longrightarrow>
     externalMessage this error = getGenericMessage error"
  by (simp add: externalMessage_def)

lemma externalMessage_redacted:
  "\<not> enabled (config this) \<or> environment (config this) = Development \<Longrightarrow>
     externalMessage this error =
       JString (SecretGuard_redact (secretGuard this) (Error.message error))"
  by (auto simp add: externalMessage_def)

lemma substring_from_zero: "0 \<le> n \<Longrightarrow> substring s 0 n = take (nat n) s"
  by (auto simp add: substring_def Let_def min_def max_def)

lemma readGenericMessages_cases:
  assumes "inGenericMessages key"
  shows "(\<exists>s. readGenericMessages key = JString s)
         \<or> (key \<in> fst ` set ObjectPrototype
             \<and> (readGenericMessages key = JObject
                 \<or> (\<exists>f a. readGenericMessages key = JFunction f a \<and> a \<le> 2)))"
proof (cases "map_of GENERIC_MESSAGES key")
  case (Some g)
  then show ?thesis by (simp add: readGenericMessages_def)
next
  case None
  with assms have k: "key \<in> fst ` set ObjectPrototype"
    by (auto simp: inGenericMessages_def map_of_eq_None_iff)
  then obtain v where v: "map_of ObjectPrototype key = Some v"
    by (cases "map_of ObjectPrototype key") (auto simp: map_of_eq_None_iff)
  then have "(key, v) \<in> set ObjectPrototype" by (rule map_of_SomeD)
  then have "v = JObject \<or> (\<exists>f a. v = JFunction f a \<and> a \<le> 2)"
    by (auto simp: ObjectPrototype_def)
  with None v k show ?thesis by (simp add: readGenericMessages_def)
qed

lemma externalMessage_cases:
  "(\<exists>s. externalMessage this error = JString s)
   \<or> (Error.name error \<in> fst ` set ObjectPrototype
       \<and> (externalMessage this error = JObject
           \<or> (\<exists>f a. externalMessage this error = JFunction f a \<and> a \<le> 2)))"
proof (cases "inGenericMessages (Error.name error)")
  case True
  from readGenericMessages_cases [OF True] show ?thesis
    by (auto simp: externalMessage_def getGenericMessage_def True)
next
  case False
  then show ?thesis by (simp add: externalMessage_def getGenericMessage_def)
qed

lemma truncateMessage_throws:
  assumes "truncateMessage (maxMessageLength (config this)) (externalMessage this error) = Inl e"
  shows "Error.name error \<in> fst ` set ObjectPrototype \<and> maxMessageLength (config this) < 2"
  using assms externalMessage_cases [of this error]
  by (auto simp: truncateMessage_def split: if_splits)

text \<open>
  Claim C1 (production opacity), as the code has it. In production mode with
  sanitization enabled, for every error whose type name is not a property that the
  message table inherits from \<open>Object.prototype\<close>: the message before truncation is the
  one the resolution order gives (type name in the table, else first keyword group with a
  keyword in the lower-cased message, else the default), it is one of the ten fixed
  generic strings, the external message is its truncation to \<open>maxMessageLength\<close>, and it
  is that generic string itself whenever \<open>maxMessageLength\<close> is at least 55, the length of
  the longest of them.
\<close>

theorem production_generic_message:
  assumes "enabled (config this)" and "environment (config this) = Production"
    and "Error.name error \<notin> fst ` set ObjectPrototype"
  shows "externalMessage this error
           = JString (classify (Error.name error) (Error.message error))
         \<and> classify (Error.name error) (Error.message error) \<in> set genericStrings
         \<and> messageOf (sanitize this rd error ctx)
           = truncateMessage (maxMessageLength (config this))
               (JString (classify (Error.name error) (Error.message error)))
         \<and> (55 \<le> maxMessageLength (config this) \<longrightarrow>
              messageOf (sanitize this rd error ctx)
                = Inr (JString (classify (Error.name error) (Error.message error))))"
proof -
  let ?g = "classify (Error.name error) (Error.message error)"
  have e: "externalMessage this error = JString ?g"
    using assms by (simp add: externalMessage_generic getGenericMessage_classify)
  have g: "?g \<in> set genericStrings" by (rule classify_generic)
  have m: "messageOf (sanitize this rd error ctx)
             = truncateMessage (maxMessageLength (config this)) (JString ?g)"
    by (simp add: messageOf_sanitize e)
  have "55 \<le> maxMessageLength (config this) \<Longrightarrow>
          truncateMessage (maxMessageLength (config this)) (JString ?g) = Inr (JString ?g)"
    using genericStrings_length [OF g] by (simp add: truncateMessage_def)
  with e g m show ?thesis by simp
qed

text \<open>
  The scenario of the specification: \<open>Request timed out after 5000ms\<close> in production
  mode, with the default limit of 500.
\<close>

theorem production_generic_message_witness:
  "messageOf (sanitize (sanitizerFor Production 500) sampleReadings
       \<lparr>name = ''Error'', Error.message = ''Request timed out after 5000ms'', stack = None\<rparr>
       (None :: unit option))
     = Inr (JString ''The operation timed out. Please try again.'')
   \<and> classify ''Error'' ''Request timed out after 5000ms''
       = ''The operation timed out. Please try again.''"
proof -
  let ?e = "\<lparr>name = ''Error'', Error.message = ''Request timed out after 5000ms'', stack = None\<rparr>"
  have c: "classify ''Error'' ''Request timed out after 5000ms''
             = ''The operation timed out. Please try again.''"
    by code_simp
  have h1: "enabled (config (sanitizerFor Production 500))"
    and h2: "environment (config (sanitizerFor Production 500)) = Production"
    and h3: "55 \<le> maxMessageLength (config (sanitizerFor Production 500))"
    by (simp_all add: sanitizerFor_def newErrorSanitizer_def ErrorSanitizer_DEFAULT_CONFIG_def)
  have h4: "Error.name ?e \<notin> fst ` set ObjectPrototype"
    by (simp add: ObjectPrototype_def)
  have "55 \<le> maxMessageLength (config (sanitizerFor Production 500)) \<longrightarrow>
          messageOf (sanitize (sanitizerFor Production 500) sampleReadings ?e (None :: unit option))
            = Inr (JString (classify (Error.name ?e) (Error.message ?e)))"
    using production_generic_message [OF h1 h2 h4, of sampleReadings "None :: unit option"]
    by blast
  with h3 c show ?thesis by simp
qed

text \<open>
  With \<open>maxMessageLength = 10\<close> the same error yields a truncated text, which is none of
  the fixed generic strings.
\<close>

theorem production_truncated_counterexample:
  "messageOf (sanitize (sanitizerFor Production 10) sampleReadings
       \<lparr>name = ''Error'', Error.message = ''Request timed out after 5000ms'', stack = None\<rparr>
       (None :: unit option))
     = Inr (JString ''The operat...'')
   \<and> ''The operat...'' \<notin> set genericStrings"
  by (simp add: messageOf_sanitize sanitizerFor_def newErrorSanitizer_def
      ErrorSanitizer_DEFAULT_CONFIG_def externalMessage_def getGenericMessage_def
      inGenericMessages_def GENERIC_MESSAGES_def ObjectPrototype_def MESSAGE_KEYWORDS_def
      toLowerCase_def lowerChar_def upperTable_def truncateMessage_def substring_def
      genericStrings_def)

text \<open>
  Claim C2 (non-production environments pass the redacted original through). The branch
  of \<open>sanitize\<close> tests \<open>environment === 'development'\<close> only: with sanitization enabled and
  \<open>environment = 'test'\<close> the external message of every error is the truncation of the
  generic message, not of the redacted original.
\<close>

theorem test_environment_generic:
  "enabled (config this) \<Longrightarrow> environment (config this) = Test \<Longrightarrow>
     messageOf (sanitize this rd error ctx)
       = truncateMessage (maxMessageLength (config this)) (getGenericMessage error)"
  by (simp add: messageOf_sanitize externalMessage_generic)

text \<open>
  \<open>connection refused\<close> in the test environment: the redacted original would be the
  message itself (\<open>redact_connection_refused\<close>), the external message is the generic
  network message.
\<close>

theorem test_environment_generic_witness:
  "messageOf (sanitize (sanitizerFor Test 500) sampleReadings
       \<lparr>name = ''Error'', Error.message = ''connection refused'', stack = None\<rparr>
       (None :: unit option))
     = Inr (JString ''A network error occurred. Please check your connection.'')"
proof -
  have h1: "enabled (config (sanitizerFor Test 500))"
    and h2: "environment (config (sanitizerFor Test 500)) = Test"
    and mx: "maxMessageLength (config (sanitizerFor Test 500)) = 500"
    by (simp_all add: sanitizerFor_def newErrorSanitizer_def ErrorSanitizer_DEFAULT_CONFIG_def)
  have g: "getGenericMessage
             \<lparr>name = ''Error'', Error.message = ''connection refused'', stack = None\<rparr>
           = JString ''A network error occurred. Please check your connection.''"
    by (simp add: getGenericMessage_def inGenericMessages_def GENERIC_MESSAGES_def
        ObjectPrototype_def MESSAGE_KEYWORDS_def toLowerCase_def lowerChar_def upperTable_def)
  show ?thesis
    using test_environment_generic [OF h1 h2, of sampleReadings
            "\<lparr>name = ''Error'', Error.message = ''connection refused'', stack = None\<rparr>"
            "None :: unit option"]
    by (simp add: g mx truncateMessage_def)
qed

lemma redact_connection_refused:
  "SecretGuard_redact (newSecretGuard id) ''connection refused'' = ''connection refused''"
  by code_simp

text \<open>
  Claim C4 (truncation bound), as the code has it. For a positive limit and an error whose
  message before truncation is the string \<open>p\<close>: the external message has at most
  \<open>maxMessageLength + 3\<close> characters; when \<open>p\<close> is longer than the limit it is the first
  \<open>maxMessageLength\<close> characters of \<open>p\<close> followed by three dots; otherwise it is \<open>p\<close>
  unchanged.
\<close>

theorem truncation_bound:
  assumes "0 < maxMessageLength (config this)"
    and "externalMessage this error = JString p"
  shows "\<exists>m. messageOf (sanitize this rd error ctx) = Inr (JString m)
             \<and> int (length m) \<le> maxMessageLength (config this) + 3
             \<and> (if int (length p) > maxMessageLength (config this)
                 then m = take (nat (maxMessageLength (config this))) p @ ''...''
                 else m = p)"
  using assms
  by (auto simp add: messageOf_sanitize truncateMessage_def substring_from_zero)

text \<open>Ten characters under a limit of five, in development mode.\<close>

theorem truncation_bound_witness:
  "messageOf (sanitize (sanitizerFor Development 5) sampleReadings
       \<lparr>name = ''Error'', Error.message = ''AAAAAAAAAA'', stack = None\<rparr>
       (None :: unit option))
     = Inr (JString (''AAAAA...''))"
proof -
  let ?e = "\<lparr>name = ''Error'', Error.message = ''AAAAAAAAAA'', stack = None\<rparr>"
  have h1: "0 < maxMessageLength (config (sanitizerFor Development 5))"
    and mx: "maxMessageLength (config (sanitizerFor Development 5)) = 5"
    by (simp_all add: sanitizerFor_def newErrorSanitizer_def ErrorSanitizer_DEFAULT_CONFIG_def)
  have r: "SecretGuard_redact (newSecretGuard id) (''AAAAAAAAAA'') = ''AAAAAAAAAA''"
    by code_simp
  have h2: "externalMessage (sanitizerFor Development 5) ?e = JString (''AAAAAAAAAA'')"
    by (simp add: externalMessage_def sanitizerFor_def newErrorSanitizer_def 
        ErrorSanitizer_DEFAULT_CONFIG_def r)
  show ?thesis
    using truncation_bound [OF h1 h2, of sampleReadings "None :: unit option"] mx
    by auto
qed

text \<open>
  A short message that itself ends with three dots is not truncated, and the result ends
  with three dots all the same.
\<close>

theorem truncation_iff_counterexample:
  "messageOf (sanitize (sanitizerFor Development 500) sampleReadings
       \<lparr>name = ''Error'', Error.message = ''wait...'', stack = None\<rparr> (None :: unit option))
     = Inr (JString ''wait...'')
   \<and> suffix ''...'' ''wait...''
   \<and> externalMessage (sanitizerFor Development 500)
       \<lparr>name = ''Error'', Error.message = ''wait...'', stack = None\<rparr> = JString ''wait...''
   \<and> \<not> int (length ''wait...'') > maxMessageLength (config (sanitizerFor Development 500))"
proof -
  have r: "SecretGuard_redact (newSecretGuard id) ''wait...'' = ''wait...''"
    by code_simp
  have s: "suffix ''...'' ''wait...''"
    by (simp add: suffix_def)
  show ?thesis
    by (simp add: messageOf_sanitize externalMessage_def sanitizerFor_def newErrorSanitizer_def
        ErrorSanitizer_DEFAULT_CONFIG_def r s truncateMessage_def)
qed

subsection \<open>The type name\<close>

lemma createSafeError_sanitize:
  "createSafeError this rd error ctx =
     (case sanitize this rd error ctx of
        (Inl e, this') \<Rightarrow> (Inl e, this')
      | (Inr r, this') \<Rightarrow>
          (Inr \<lparr>name = type' (external r),
                 Error.message = ToString (ExternalError.message (external r)),
                 stack = (if sanitizeStackTraces (config this)
                             \<and> environment (config this) = Production
                          then None else Some (capturedStack rd)),
                 correlationId = Some (InternalErrorDetails.correlationId (internal r))\<rparr>,
           this'))"
  by (simp add: createSafeError_def)

lemma sanitize_type_or_throw:
  "case sanitize this rd error ctx of
      (Inr r, this') \<Rightarrow> type' (external r) = Error.name error
    | (Inl e, this') \<Rightarrow>
        Error.name error \<in> fst ` set ObjectPrototype \<and> maxMessageLength (config this) < 2"
  using truncateMessage_throws [of this error]
  by (auto simp: sanitize_def Let_def split_def split: sum.splits)

lemma createSafeError_name_or_throw:
  "case createSafeError this rd error ctx of
      (Inr e, this') \<Rightarrow> Error.name e = Error.name error
    | (Inl e, this') \<Rightarrow>
        Error.name error \<in> fst ` set ObjectPrototype \<and> maxMessageLength (config this) < 2"
  using sanitize_type_or_throw [where this = this and rd = rd and error = error and ctx = ctx]
  by (auto simp: createSafeError_def split: sum.splits prod.splits)

text \<open>
  Claim C10 (the type name crosses unmodified). For every sanitizer, whatever its
  configuration, and every error: \<open>sanitize\<close> returns a result whose \<open>external.type\<close> is
  the error's name, and \<open>createSafeError\<close> returns an error of that name. The only other
  outcome of either call is the \<open>TypeError\<close> of the truncation step, which needs a name
  inherited from \<open>Object.prototype\<close> and a limit below 2.
\<close>

theorem type_name_verbatim:
  "(case sanitize this rd error ctx of
      (Inr r, this') \<Rightarrow> type' (external r) = Error.name error
    | (Inl e, this') \<Rightarrow>
        Error.name error \<in> fst ` set ObjectPrototype \<and> maxMessageLength (config this) < 2)
   \<and> (case createSafeError this rd error ctx of
        (Inr e, this') \<Rightarrow> Error.name e = Error.name error
      | (Inl e, this') \<Rightarrow>
          Error.name error \<in> fst ` set ObjectPrototype \<and> maxMessageLength (config this) < 2)"
  by (rule conjI [OF sanitize_type_or_throw createSafeError_name_or_throw])

text \<open>A custom type name in production mode.\<close>

theorem type_name_verbatim_witness:
  "(case sanitize (sanitizerFor Production 500) sampleReadings
          \<lparr>name = ''PaymentGatewayError'', Error.message = ''card declined'', stack = None\<rparr>
          (None :: unit option) of
      (Inr r, this') \<Rightarrow> type' (external r) = ''PaymentGatewayError''
    | (Inl e, this') \<Rightarrow> False)
   \<and> (case createSafeError (sanitizerFor Production 500) sampleReadings
          \<lparr>name = ''PaymentGatewayError'', Error.message = ''card declined'', stack = None\<rparr>
          (None :: unit option) of
        (Inr e, this') \<Rightarrow> Error.name e = ''PaymentGatewayError''
      | (Inl e, this') \<Rightarrow> False)"
proof -
  have n: "''PaymentGatewayError'' \<notin> fst ` set ObjectPrototype"
    by (simp add: ObjectPrototype_def)
  show ?thesis
    using n type_name_verbatim [where this = "sanitizerFor Production 500"
      and rd = sampleReadings
      and error = "\<lparr>name = ''PaymentGatewayError'', Error.message = ''card declined'',
                     stack = None\<rparr>"
      and ctx = "None :: unit option"]
    by (auto split: sum.splits prod.splits)
qed

subsection \<open>Values that are not errors\<close>

text \<open>
  \<open>sanitizeUnknownError\<close> runs \<open>createSafeError\<close> of the global sanitizer on its argument,
  a value that is not an \<open>Error\<close> being wrapped first: a string becomes the message of an
  \<open>UnknownError\<close>, any other value the fixed message.
\<close>

lemma wrapUnknown_string:
  "wrapUnknown rd (StringValue s) =
     \<lparr>name = ''UnknownError'', Error.message = s, stack = Some (wrappedStack rd)\<rparr>"
  by (simp add: wrapUnknown_def)

lemma wrapUnknown_other:
  "wrapUnknown rd OtherValue =
     \<lparr>name = ''UnknownError'', Error.message = ''An unknown error occurred'',
      stack = Some (wrappedStack rd)\<rparr>"
  by (simp add: wrapUnknown_def)

lemma sanitizeUnknownError_pipeline:
  "sanitizeUnknownError NODE_ENV gl rd v ctx =
     (let (sanitizer, gl') = getErrorSanitizer NODE_ENV gl;
          (result, sanitizer') = createSafeError sanitizer rd (wrapUnknown rd v) ctx
      in (result, gl'\<lparr>globalErrorSanitizer := Some sanitizer'\<rparr>))"
  by (cases v) (simp_all add: sanitizeUnknownError_def wrapUnknown_def)

text \<open>
  \<open>createSafeError\<close> returns whenever the limit is at least 2 or the error's name is not
  inherited from \<open>Object.prototype\<close>.
\<close>

lemma createSafeError_returns:
  assumes "2 \<le> maxMessageLength (config this) \<or> Error.name error \<notin> fst ` set ObjectPrototype"
  shows "\<exists>e this'. createSafeError this rd error ctx = (Inr e, this')"
proof -
  obtain out this' where o: "createSafeError this rd error ctx = (out, this')"
    by (cases "createSafeError this rd error ctx")
  show ?thesis
  proof (cases out)
    case (Inl x)
    with o assms
      createSafeError_name_or_throw [where this = this and rd = rd and error = error and ctx = ctx]
    show ?thesis by auto
  next
    case (Inr e)
    with o show ?thesis by simp
  qed
qed

text \<open>
  A value that is not an \<open>Error\<close> never makes \<open>sanitizeUnknownError\<close> throw, whatever
  the global sanitizer; and with the global sanitizer created on first use (limit 500)
  no value does.
\<close>

lemma wrapUnknown_name:
  "v = StringValue s \<or> v = OtherValue \<Longrightarrow> Error.name (wrapUnknown rd v) = ''UnknownError''"
  by (auto simp: wrapUnknown_def)

lemma unknownError_not_inherited: "''UnknownError'' \<notin> fst ` set ObjectPrototype"
  by (simp add: ObjectPrototype_def)

lemma sanitizeUnknownError_non_error:
  assumes "v = StringValue s \<or> v = OtherValue"
  shows "\<exists>e gl'. sanitizeUnknownError NODE_ENV gl rd v ctx = (Inr e, gl')
                  \<and> Error.name e = ''UnknownError''"
proof -
  obtain sanitizer gl1 where g: "getErrorSanitizer NODE_ENV gl = (sanitizer, gl1)"
    by (cases "getErrorSanitizer NODE_ENV gl")
  have n: "Error.name (wrapUnknown rd v) = ''UnknownError''"
    using assms by (rule wrapUnknown_name)
  then have "Error.name (wrapUnknown rd v) \<notin> fst ` set ObjectPrototype"
    by (simp add: unknownError_not_inherited)
  then obtain e sanitizer' where
    c: "createSafeError sanitizer rd (wrapUnknown rd v) ctx = (Inr e, sanitizer')"
    using createSafeError_returns [of sanitizer "wrapUnknown rd v" rd ctx] by blast
  with createSafeError_name_or_throw
         [where this = sanitizer and rd = rd and error = "wrapUnknown rd v" and ctx = ctx] n
  have "Error.name e = ''UnknownError''" by simp
  with g c show ?thesis by (simp add: sanitizeUnknownError_pipeline)
qed

lemma sanitizeUnknownError_default_returns:
  "\<exists>e gl'. sanitizeUnknownError NODE_ENV emptyGlobals rd v ctx = (Inr e, gl')"
proof -
  obtain sanitizer gl1 where g: "getErrorSanitizer NODE_ENV emptyGlobals = (sanitizer, gl1)"
    by (cases "getErrorSanitizer NODE_ENV emptyGlobals")
  then have "maxMessageLength (config sanitizer) = 500"
    by (auto simp: getErrorSanitizer_def emptyGlobals_def getSecretGuard_def Let_def
        newErrorSanitizer_def ErrorSanitizer_DEFAULT_CONFIG_def)
  then obtain e sanitizer' where
    "createSafeError sanitizer rd (wrapUnknown rd v) ctx = (Inr e, sanitizer')"
    using createSafeError_returns [of sanitizer "wrapUnknown rd v" rd ctx] by auto
  with g show ?thesis by (simp add: sanitizeUnknownError_pipeline)
qed

text \<open>
  Claim C3 (no operation throws). The global sanitizer is configured for production with
  \<open>maxMessageLength = 1\<close>, and the argument is an \<open>Error\<close> named \<open>__defineGetter__\<close>. The
  \<open>in\<close> test of \<open>getGenericMessage\<close> finds the name on the prototype chain of the message
  table, the value read is a function of \<open>length\<close> 2, the truncation step calls
  \<open>substring\<close> on it, and the call throws.
\<close>

theorem sanitizeUnknownError_throws:
  "fst (sanitizeUnknownError None
          (configureErrorSanitizer None
             (\<lambda>c. c\<lparr>environment := Production, maxMessageLength := 1\<rparr>) emptyGlobals)
          sampleReadings
          (ErrorValue \<lparr>name = ''__defineGetter__'', Error.message = ''boom'', stack = None\<rparr>)
          (None :: unit option))
     = Inl TypeError"
  by (simp add: sanitizeUnknownError_def configureErrorSanitizer_def getErrorSanitizer_def
      getSecretGuard_def emptyGlobals_def newErrorSanitizer_def ErrorSanitizer_DEFAULT_CONFIG_def
      createSafeError_def sanitize_def externalMessage_def getGenericMessage_def
      inGenericMessages_def readGenericMessages_def GENERIC_MESSAGES_def ObjectPrototype_def
      truncateMessage_def Let_def split_def)

section \<open>Correlation ids: properties\<close>

text \<open>
  Base-36 digits are pairwise different, so \<open>toString(36)\<close> is injective on the natural
  numbers; its digits contain no hyphen, and a positive number has no leading zero, so
  the zero-padded counter segment determines the counter.
\<close>

lemma digit36_inj: "d < 36 \<Longrightarrow> e < 36 \<Longrightarrow> digit36 d = digit36 e \<Longrightarrow> d = e"
proof -
  assume d: "d < 36" and e: "e < 36" and eq: "digit36 d = digit36 e"
  have dis: "distinct ''0123456789abcdefghijklmnopqrstuvwxyz''" by simp
  have len: "length ''0123456789abcdefghijklmnopqrstuvwxyz'' = 36" by simp
  from eq have "''0123456789abcdefghijklmnopqrstuvwxyz'' ! d = ''0123456789abcdefghijklmnopqrstuvwxyz'' ! e"
    by (simp only: digit36_def)
  with dis d e len show "d = e" by (simp only: nth_eq_iff_index_eq)
qed

lemma digit36_mem: "d < 36 \<Longrightarrow> digit36 d \<in> set ''0123456789abcdefghijklmnopqrstuvwxyz''"
proof -
  assume d: "d < 36"
  have len: "length ''0123456789abcdefghijklmnopqrstuvwxyz'' = 36" by simp
  from d len show ?thesis unfolding digit36_def by (metis nth_mem)
qed

lemma digit36_not_dash: "d < 36 \<Longrightarrow> digit36 d \<noteq> CHR ''-''"
  using digit36_mem [of d] by auto

lemma digit36_zero: "digit36 0 = CHR ''0''"
  by (simp add: digit36_def)

lemma toString36nat_nonempty: "toString36nat n \<noteq> []"
  by (subst toString36nat.simps) simp

lemma toString36nat_no_dash: "CHR ''-'' \<notin> set (toString36nat n)"
proof (induction n rule: toString36nat.induct)
  case (1 n)
  show ?case
  proof (cases "n < 36")
    case True
    then show ?thesis using digit36_not_dash [of n]
      by (subst toString36nat.simps) auto
  next
    case False
    have "n mod 36 < 36" by simp
    then have "digit36 (n mod 36) \<noteq> CHR ''-''" by (rule digit36_not_dash)
    with False "1.IH" show ?thesis
      by (subst toString36nat.simps) auto
  qed
qed

lemma toString36nat_inj: "toString36nat n = toString36nat m \<Longrightarrow> n = m"
proof (induction n arbitrary: m rule: toString36nat.induct)
  case (1 n)
  show ?case
  proof (cases "n < 36")
    case n: True
    show ?thesis
    proof (cases "m < 36")
      case True
      with n "1.prems" show ?thesis
        by (simp add: toString36nat.simps [of n] toString36nat.simps [of m] digit36_inj)
    next
      case False
      with n "1.prems" toString36nat_nonempty [of "m div 36"] show ?thesis
        by (simp add: toString36nat.simps [of n] toString36nat.simps [of m])
    qed
  next
    case n: False
    show ?thesis
    proof (cases "m < 36")
      case True
      with n "1.prems" toString36nat_nonempty [of "n div 36"] show ?thesis
        by (simp add: toString36nat.simps [of n] toString36nat.simps [of m])
    next
      case False
      with n "1.prems" have a: "toString36nat (n div 36) = toString36nat (m div 36)"
        and b: "digit36 (n mod 36) = digit36 (m mod 36)"
        by (simp_all add: toString36nat.simps [of n] toString36nat.simps [of m])
      from "1.IH" [OF n a] have q: "n div 36 = m div 36" .
      have "n mod 36 < 36" "m mod 36 < 36" by simp_all
      with b have r: "n mod 36 = m mod 36" by (rule digit36_inj [rotated 2])
      from q r show ?thesis by (metis div_mult_mod_eq)
    qed
  qed
qed

lemma toString36nat_hd: "0 < n \<Longrightarrow> hd (toString36nat n) \<noteq> CHR ''0''"
proof (induction n rule: toString36nat.induct)
  case (1 n)
  show ?case
  proof (cases "n < 36")
    case True
    with "1.prems" have "digit36 n \<noteq> digit36 0"
      using digit36_inj [of n 0] by auto
    with True show ?thesis
      by (simp add: toString36nat.simps [of n] digit36_zero)
  next
    case False
    then have "0 < n div 36" by (simp add: div_greater_zero_iff)
    with "1.IH" False have "hd (toString36nat (n div 36)) \<noteq> CHR ''0''" by simp
    with False toString36nat_nonempty [of "n div 36"] show ?thesis
      by (simp add: toString36nat.simps [of n])
  qed
qed

lemma dropWhile_replicate_append:
  "dropWhile (\<lambda>c. c = x) (replicate k x @ s) = dropWhile (\<lambda>c. c = x) s"
  by (induction k) simp_all

lemma dropWhile_padStart:
  "s \<noteq> [] \<Longrightarrow> hd s \<noteq> c \<Longrightarrow> dropWhile (\<lambda>x. x = c) (padStart s n c) = s"
  by (cases s) (simp_all add: padStart_def dropWhile_replicate_append)

lemma padStart_inj:
  assumes "s \<noteq> []" "t \<noteq> []" "hd s \<noteq> c" "hd t \<noteq> c"
    and "padStart s n c = padStart t n c"
  shows "s = t"
proof -
  have "s = dropWhile (\<lambda>x. x = c) (padStart s n c)"
    by (rule dropWhile_padStart [OF assms(1,3), symmetric])
  also have "\<dots> = dropWhile (\<lambda>x. x = c) (padStart t n c)"
    by (simp only: assms(5))
  also have "\<dots> = t"
    by (rule dropWhile_padStart [OF assms(2,4)])
  finally show ?thesis .
qed

lemma padStart_no_dash:
  "CHR ''-'' \<notin> set s \<Longrightarrow> CHR ''-'' \<notin> set (padStart s n CHR ''0'')"
  by (auto simp: padStart_def)

lemma toString36_nat: "toString36 (int n) = toString36nat n"
  by (simp add: toString36_def)

lemma counterSegment_inj:
  assumes "0 < n" "0 < m" "counterSegment n = counterSegment m"
  shows "n = m"
proof -
  have e: "padStart (toString36nat n) 4 CHR ''0'' = padStart (toString36nat m) 4 CHR ''0''"
    using assms(3) by (simp only: counterSegment_def toString36_nat)
  have "toString36nat n = toString36nat m"
    by (rule padStart_inj [OF toString36nat_nonempty toString36nat_nonempty
          toString36nat_hd [OF assms(1)] toString36nat_hd [OF assms(2)] e])
  then show ?thesis by (rule toString36nat_inj)
qed

lemma counterSegment_no_dash: "CHR ''-'' \<notin> set (counterSegment n)"
  by (simp add: counterSegment_def toString36_nat padStart_no_dash toString36nat_no_dash)

lemma split_at_dash:
  assumes "CHR ''-'' \<notin> set a" "CHR ''-'' \<notin> set b"
    and "a @ CHR ''-'' # x = b @ CHR ''-'' # y"
  shows "a = b \<and> x = y"
proof -
  have "takeWhile (\<lambda>c. c \<noteq> CHR ''-'') (a @ CHR ''-'' # x) = a"
    using assms(1) by (auto simp add: takeWhile_tail takeWhile_eq_all_conv)
  moreover have "takeWhile (\<lambda>c. c \<noteq> CHR ''-'') (b @ CHR ''-'' # y) = b"
    using assms(2) by (auto simp add: takeWhile_tail takeWhile_eq_all_conv)
  ultimately have "a = b" using assms(3) by simp
  with assms(3) show ?thesis by simp
qed

lemma timestamp_split:
  assumes "toString36 i @ CHR ''-'' # x = toString36 j @ CHR ''-'' # y"
  shows "x = y"
proof -
  have neg: "\<And>k. k < 0 \<Longrightarrow> toString36 k = CHR ''-'' # toString36nat (nat (- k))"
    by (simp add: toString36_def)
  have pos: "\<And>k. \<not> k < 0 \<Longrightarrow> toString36 k = toString36nat (nat k)"
    by (simp add: toString36_def)
  have hdpos: "\<And>k z. \<not> k < 0 \<Longrightarrow> hd (toString36 k @ z) \<noteq> CHR ''-''"
  proof -
    fix k :: int and z :: string
    assume "\<not> k < 0"
    then have "toString36 k = toString36nat (nat k)" by (rule pos)
    moreover have "hd (toString36nat (nat k)) \<in> set (toString36nat (nat k))"
      using toString36nat_nonempty by simp
    ultimately show "hd (toString36 k @ z) \<noteq> CHR ''-''"
      using toString36nat_no_dash [of "nat k"] toString36nat_nonempty [of "nat k"]
      by (metis hd_append2)
  qed
  show ?thesis
  proof (cases "i < 0")
    case i: True
    show ?thesis
    proof (cases "j < 0")
      case True
      with i assms show ?thesis
        using split_at_dash [OF toString36nat_no_dash toString36nat_no_dash]
        by (simp add: neg)
    next
      case False
      from assms have "hd (toString36 i @ CHR ''-'' # x) = hd (toString36 j @ CHR ''-'' # y)"
        by simp
      with hdpos [OF False, of "CHR ''-'' # y"] i show ?thesis
        by (simp add: neg)
    qed
  next
    case i: False
    show ?thesis
    proof (cases "j < 0")
      case True
      from assms have "hd (toString36 i @ CHR ''-'' # x) = hd (toString36 j @ CHR ''-'' # y)"
        by simp
      with hdpos [OF i, of "CHR ''-'' # x"] True show ?thesis
        by (simp add: neg)
    next
      case False
      with i assms show ?thesis
        using split_at_dash [OF toString36nat_no_dash toString36nat_no_dash]
        by (simp add: pos)
    qed
  qed
qed


lemma hasCounter_unique:
  assumes "hasCounter n s" "hasCounter m s" "0 < n" "0 < m"
  shows "n = m"
proof -
  from assms(1) obtain i r where
    a: "s = ''err-'' @ toString36 i @ ''-'' @ counterSegment n @ ''-'' @ r"
    by (auto simp: hasCounter_def)
  from assms(2) obtain j r' where
    b: "s = ''err-'' @ toString36 j @ ''-'' @ counterSegment m @ ''-'' @ r'"
    by (auto simp: hasCounter_def)
  from a b have "toString36 i @ CHR ''-'' # (counterSegment n @ CHR ''-'' # r)
                 = toString36 j @ CHR ''-'' # (counterSegment m @ CHR ''-'' # r')"
    by simp
  then have "counterSegment n @ CHR ''-'' # r = counterSegment m @ CHR ''-'' # r'"
    by (rule timestamp_split)
  then have "counterSegment n = counterSegment m"
    using split_at_dash [OF counterSegment_no_dash counterSegment_no_dash] by blast
  with assms(3,4) show ?thesis by (simp add: counterSegment_inj)
qed

lemma generateCorrelationId_shape:
  "generateCorrelationId this rd =
     (''err-'' @ toString36 (dateNow rd) @ ''-''
        @ counterSegment (Suc (correlationCounter this)) @ ''-''
        @ substring (mathRandom36 rd) 2 6,
      this\<lparr>correlationCounter := Suc (correlationCounter this)\<rparr>)"
  by (simp add: generateCorrelationId_def Let_def counterSegment_def)

lemma sanitize_state:
  "snd (sanitize this rd error ctx) = this\<lparr>correlationCounter := Suc (correlationCounter this)\<rparr>"
  by (simp add: sanitize_def generateCorrelationId_shape Let_def split: sum.splits)

lemma sanitize_id:
  assumes "fst (sanitize this rd error ctx) = Inr r"
  shows "hasCounter (Suc (correlationCounter this))
           (InternalErrorDetails.correlationId (internal r))"
proof -
  from assms have "InternalErrorDetails.correlationId (internal r)
      = ''err-'' @ toString36 (dateNow rd) @ ''-''
        @ counterSegment (Suc (correlationCounter this)) @ ''-''
        @ substring (mathRandom36 rd) 2 6"
    by (auto simp: sanitize_def generateCorrelationId_shape Let_def split: sum.splits)
  then show ?thesis unfolding hasCounter_def by blast
qed

lemma sanitizeAll_Cons:
  "sanitizeAll this ((rd, error, ctx) # calls) =
     fst (sanitize this rd error ctx)
       # sanitizeAll (this\<lparr>correlationCounter := Suc (correlationCounter this)\<rparr>) calls"
  using sanitize_state [of this rd error ctx]
  by (simp add: split_def Let_def)

lemma returnedIds_counters:
  "s \<in> set (returnedIds (sanitizeAll this calls)) \<Longrightarrow>
     \<exists>n. correlationCounter this < n \<and> hasCounter n s"
proof (induction calls arbitrary: this)
  case Nil
  then show ?case by simp
next
  case (Cons call calls)
  obtain rd error ctx where call: "call = (rd, error, ctx)" by (cases call) auto
  let ?next = "this\<lparr>correlationCounter := Suc (correlationCounter this)\<rparr>"
  show ?case
  proof (cases "fst (sanitize this rd error ctx)")
    case (Inl e)
    with Cons.prems call have "s \<in> set (returnedIds (sanitizeAll ?next calls))"
      by (simp add: sanitizeAll_Cons del: sanitizeAll.simps)
    from Cons.IH [OF this] show ?thesis by (auto intro: Suc_lessD)
  next
    case (Inr r)
    with Cons.prems call have
      "s = InternalErrorDetails.correlationId (internal r)
       \<or> s \<in> set (returnedIds (sanitizeAll ?next calls))"
      by (simp add: sanitizeAll_Cons del: sanitizeAll.simps)
    then show ?thesis
    proof
      assume "s = InternalErrorDetails.correlationId (internal r)"
      with sanitize_id [OF Inr] show ?thesis by auto
    next
      assume "s \<in> set (returnedIds (sanitizeAll ?next calls))"
      from Cons.IH [OF this] show ?thesis by (auto intro: Suc_lessD)
    qed
  qed
qed

lemma returnedIds_distinct: "distinct (returnedIds (sanitizeAll this calls))"
proof (induction calls arbitrary: this)
  case Nil
  show ?case by simp
next
  case (Cons call calls)
  obtain rd error ctx where call: "call = (rd, error, ctx)" by (cases call) auto
  let ?next = "this\<lparr>correlationCounter := Suc (correlationCounter this)\<rparr>"
  show ?case
  proof (cases "fst (sanitize this rd error ctx)")
    case (Inl e)
    with call Cons.IH [of ?next] show ?thesis by (simp add: sanitizeAll_Cons del: sanitizeAll.simps)
  next
    case (Inr r)
    have "InternalErrorDetails.correlationId (internal r)
            \<notin> set (returnedIds (sanitizeAll ?next calls))"
    proof
      assume "InternalErrorDetails.correlationId (internal r)
                \<in> set (returnedIds (sanitizeAll ?next calls))"
      from returnedIds_counters [OF this] obtain n where
        n: "Suc (correlationCounter this) < n"
        and h: "hasCounter n (InternalErrorDetails.correlationId (internal r))"
        by auto
      from hasCounter_unique [OF h sanitize_id [OF Inr]] n show False by simp
    qed
    with Inr call Cons.IH [of ?next] show ?thesis by (simp add: sanitizeAll_Cons del: sanitizeAll.simps)
  qed
qed


lemma sanitize_returns:
  assumes "2 \<le> maxMessageLength (config this) \<or> Error.name error \<notin> fst ` set ObjectPrototype"
  shows "\<exists>r. fst (sanitize this rd error ctx) = Inr r"
proof (cases "truncateMessage (maxMessageLength (config this)) (externalMessage this error)")
  case (Inl e)
  from truncateMessage_throws [OF Inl] assms show ?thesis by auto
next
  case (Inr m)
  then show ?thesis by (simp add: sanitize_def Let_def split_def)
qed

lemma returnedIds_length:
  assumes "\<forall>(rd, error, ctx) \<in> set calls.
             2 \<le> maxMessageLength (config this) \<or> Error.name error \<notin> fst ` set ObjectPrototype"
  shows "length (returnedIds (sanitizeAll this calls)) = length calls"
  using assms
proof (induction calls arbitrary: this)
  case Nil
  show ?case by simp
next
  case (Cons call calls)
  obtain rd error ctx where call: "call = (rd, error, ctx)" by (cases call) auto
  let ?next = "this\<lparr>correlationCounter := Suc (correlationCounter this)\<rparr>"
  from Cons.prems call obtain r where r: "fst (sanitize this rd error ctx) = Inr r"
    using sanitize_returns [of this error rd ctx] by auto
  have "length (returnedIds (sanitizeAll ?next calls)) = length calls"
    using Cons.prems by (intro Cons.IH) auto
  with r call show ?case by (simp add: sanitizeAll_Cons del: sanitizeAll.simps)
qed

text \<open>
  Claim C9 (correlation-id uniqueness). For any sequence of calls of \<open>sanitize\<close> on one
  instance, whatever the timestamps and random suffixes, the correlation ids of the
  results are pairwise distinct; and every call returns a result, so that \<open>n\<close> calls give
  \<open>n\<close> ids (100 calls give 100), provided the limit is at least 2 or no error is named
  after a property inherited from \<open>Object.prototype\<close>.
\<close>

theorem correlation_ids_distinct:
  "distinct (returnedIds (sanitizeAll this calls))
   \<and> ((\<forall>(rd, error, ctx) \<in> set calls.
          2 \<le> maxMessageLength (config this) \<or> Error.name error \<notin> fst ` set ObjectPrototype)
        \<longrightarrow> length (returnedIds (sanitizeAll this calls)) = length calls)"
  by (intro conjI impI returnedIds_distinct returnedIds_length)

text \<open>One hundred calls with the same timestamp, the same random text and the same error.\<close>

theorem correlation_ids_distinct_witness:
  "distinct (returnedIds (sanitizeAll (sanitizerFor Development 500)
       (replicate 100 (sampleReadings,
          \<lparr>name = ''Error'', Error.message = ''test'', stack = None\<rparr>, None :: unit option))))
   \<and> length (returnedIds (sanitizeAll (sanitizerFor Development 500)
       (replicate 100 (sampleReadings,
          \<lparr>name = ''Error'', Error.message = ''test'', stack = None\<rparr>, None :: unit option))))
     = 100"
proof -
  have n: "''Error'' \<notin> fst ` set ObjectPrototype"
    by (simp add: ObjectPrototype_def)
  show ?thesis
    using n correlation_ids_distinct [of "sanitizerFor Development 500"
      "replicate 100 (sampleReadings,
          \<lparr>name = ''Error'', Error.message = ''test'', stack = None\<rparr>, None :: unit option)"]
    by simp
qed

section \<open>Path redactor: properties\<close>

lemma rxMatcher_Cls:
  "rxMatcher ic (Cls neg p) pre s =
     (case s of [] \<Rightarrow> None | c # cs \<Rightarrow> if clsMatch ic neg p c then Some (1, []) else None)"
  by (simp add: rxMatcher_def split: list.splits)

lemma rxMatcher_Lit:
  "rxMatcher False (Lit l) pre s = (if prefix l s then Some (length l, []) else None)"
proof -
  have eq: "litMatch False = (=)" by (intro ext) (simp add: litMatch_def)
  have "(length l \<le> length s \<and> l = take (length l) s) = prefix l s"
    by (metis prefix_def append_eq_conv_conj prefix_length_le take_is_prefix)
  then show ?thesis by (simp add: rxMatcher_def eq list.rel_eq)
qed

lemma escape_template:
  "template [CHR 0x5C, CHR ''$'', CHR ''&''] m caps pre post = CHR 0x5C # m"
  by (simp add: template_def)

lemma replaceAll_class_escape:
  "replaceAll (rxMatcher False (Cls False p)) (template [CHR 0x5C, CHR ''$'', CHR ''&'']) pre s
     = concat (map (\<lambda>c. if p c then [CHR 0x5C, c] else [c]) s)"
  by (induction s arbitrary: pre)
     (simp_all add: rxMatcher_Cls clsMatch_def escape_template)

text \<open>Escaping puts a backslash before each of the fourteen characters of the class.\<close>

lemma escapeRegExp_eq:
  "escapeRegExp basePath
     = concat (map (\<lambda>c. if isEscapedChar c then [CHR 0x5C, c] else [c]) basePath)"
  by (simp add: escapeRegExp_def replaceWith_def RegExp_def replaceAll_class_escape)

lemma isEscapedChar_syntax: "isEscapedChar c = isSyntaxChar c"
  by (auto simp: isEscapedChar_def isSyntaxChar_def)

lemma backslash_syntax: "isSyntaxChar (CHR 0x5C)"
  by (simp add: isSyntaxChar_def)

lemma parse_escaped:
  "parseLiteralSource (concat (map (\<lambda>c. if isEscapedChar c then [CHR 0x5C, c] else [c]) l))
     = Some l"
proof (induction l)
  case Nil
  show ?case by simp
next
  case (Cons c l)
  show ?case
  proof (cases "isSyntaxChar c")
    case True
    with Cons show ?thesis by (simp add: isEscapedChar_syntax)
  next
    case False
    with backslash_syntax have "c \<noteq> CHR 0x5C" by auto
    with False Cons show ?thesis by (simp add: isEscapedChar_syntax)
  qed
qed

text \<open>
  The escaped base path, handed to \<open>new RegExp\<close>, is the expression that matches the
  base path literally: the constructor always has an answer here.
\<close>

lemma newRegExp_escapeRegExp:
  "newRegExp (escapeRegExp basePath) True = Some (RegExp (Lit basePath) False True)"
  by (simp add: newRegExp_def escapeRegExp_eq parse_escaped)

lemma basePathLoop_phase:
  "basePathLoop marker paths result = Some (basePathPhase marker paths result)"
  by (induction paths arbitrary: result)
     (simp_all add: basePathPhase_def newRegExp_escapeRegExp Let_def)

lemma patternLoop_phase: "patternLoop ps result = customPhase ps result"
  by (induction ps arbitrary: result) (simp_all add: customPhase_def)

text \<open>
  A replacement string without a dollar sign stands for itself, and then the literal
  expression replaces every occurrence of the base path by the marker.
\<close>

lemma getSubstitution_plain:
  "CHR ''$'' \<notin> set tpl \<Longrightarrow> getSubstitution m caps pre post tpl = tpl"
  by (induction m caps pre post tpl rule: getSubstitution.induct) auto

lemma replaceAll_literal:
  "CHR ''$'' \<notin> set marker \<Longrightarrow> l \<noteq> [] \<Longrightarrow>
     replaceAll (rxMatcher False (Lit l)) (template marker) pre s = replaceLiteral l marker s"
proof (induction l marker s arbitrary: pre rule: replaceLiteral.induct)
  case (1 needle marker)
  then show ?case by (simp add: rxMatcher_Lit)
next
  case (2 needle marker c cs)
  note dollar = "2.prems"(1) and nonempty = "2.prems"(2)
  show ?case
  proof (cases "prefix needle (c # cs)")
    case True
    then have len: "length needle \<le> Suc (length cs)"
      using prefix_length_le by fastforce
    from nonempty have pos: "length needle \<noteq> 0" by simp
    have m: "rxMatcher False (Lit needle) pre (c # cs) = Some (length needle, [])"
      using True by (simp add: rxMatcher_Lit)
    have t: "template marker (take (length needle) (c # cs)) [] pre
               (drop (length needle) (c # cs)) = marker"
      using dollar by (simp add: template_def getSubstitution_plain)
    have step: "replaceAll (rxMatcher False (Lit needle)) (template marker) pre (c # cs)
          = marker @ replaceAll (rxMatcher False (Lit needle)) (template marker)
                       (pre @ take (length needle) (c # cs)) (drop (length needle) (c # cs))"
      using len pos by (simp add: m t min_absorb1 Let_def)
    from True nonempty dollar have "replaceAll (rxMatcher False (Lit needle)) (template marker)
            (pre @ take (length needle) (c # cs)) (drop (length needle) (c # cs))
          = replaceLiteral needle marker (drop (length needle) (c # cs))"
      by (intro "2.IH"(1)) simp_all
    with step True nonempty show ?thesis by simp
  next
    case False
    have m: "rxMatcher False (Lit needle) pre (c # cs) = None"
      using False by (simp add: rxMatcher_Lit)
    from False nonempty dollar have "replaceAll (rxMatcher False (Lit needle)) (template marker)
            (pre @ [c]) cs = replaceLiteral needle marker cs"
      by (intro "2.IH"(2)) simp_all
    with False show ?thesis by (simp add: m)
  qed
qed

lemma replaceWith_literal:
  "CHR ''$'' \<notin> set marker \<Longrightarrow> l \<noteq> [] \<Longrightarrow>
     replaceWith (RegExp (Lit l) False True) (template marker) s = replaceLiteral l marker s"
  by (simp add: replaceWith_def RegExp_def replaceAll_literal)

lemma replaceLiteral_empty: "replaceLiteral [] marker s = s"
  by (induction s) simp_all

lemma basePathPhase_literal:
  "CHR ''$'' \<notin> set marker \<Longrightarrow>
     basePathPhase marker paths s = fold (\<lambda>basePath. replaceLiteral basePath marker) paths s"
proof (induction paths arbitrary: s)
  case Nil
  show ?case by (simp add: basePathPhase_def)
next
  case (Cons p ps)
  from Cons.prems have "basePathPhase marker (p # ps) s
      = basePathPhase marker ps (replaceLiteral p marker s)"
    by (cases "p = []") (simp_all add: basePathPhase_def replaceWith_literal replaceLiteral_empty)
  with Cons show ?case by simp
qed

lemma replaceLiteral_absent: "\<not> sublist l s \<Longrightarrow> replaceLiteral l marker s = s"
proof (induction s)
  case Nil
  show ?case by simp
next
  case (Cons c cs)
  then have "\<not> prefix l (c # cs)" and "\<not> sublist l cs"
    by (auto simp: sublist_Cons_right)
  with Cons show ?case by simp
qed

lemma fold_replaceLiteral_absent:
  "\<forall>bp \<in> set paths. \<not> sublist bp s \<Longrightarrow>
     fold (\<lambda>basePath. replaceLiteral basePath marker) paths s = s"
  by (induction paths) (simp_all add: replaceLiteral_absent)

lemma system_patterns_example:
  "customPhase SYSTEM_PATH_PATTERNS ''/home/johndoe/file.txt'' = ''/home/[USER]/file.txt''"
  by code_simp

lemma PathSanitizer_redact_phases:
  "PathSanitizer_redact this input =
     Some (if \<not> PathSanitizerConfig.enabled (PathSanitizer.config this) \<or> input = [] then input
           else systemPhase (redactSystemPaths (PathSanitizer.config this))
                  (customPhase (PathSanitizerConfig.customPatterns (PathSanitizer.config this))
                     (basePathPhase (basePathReplacement (PathSanitizer.config this))
                        (basePaths (PathSanitizer.config this)) input)))"
  by (simp add: PathSanitizer_redact_def basePathLoop_phase patternLoop_phase systemPhase_def
      Let_def)

text \<open>
  The scenario of the specification, for the default settings and any base paths that do
  not occur in the input: \<open>/home/johndoe/file.txt\<close> becomes \<open>/home/[USER]/file.txt\<close>.
\<close>

lemma default_redact_example:
  assumes "\<forall>bp \<in> set paths. \<not> sublist bp ''/home/johndoe/file.txt''"
  shows "PathSanitizer_redact \<lparr>PathSanitizer.config = PathSanitizer_DEFAULT_CONFIG\<lparr>basePaths := paths\<rparr>\<rparr>
           ''/home/johndoe/file.txt'' = Some ''/home/[USER]/file.txt''"
proof -
  have "basePathPhase ''[PATH]'' paths ''/home/johndoe/file.txt'' = ''/home/johndoe/file.txt''"
    using assms by (simp add: basePathPhase_literal fold_replaceLiteral_absent)
  then show ?thesis
    by (simp add: PathSanitizer_redact_phases PathSanitizer_DEFAULT_CONFIG_def systemPhase_def
        system_patterns_example customPhase_def [of "[]"])
qed

text \<open>All three kinds of replacement in one input: two base paths and a system pattern.\<close>

lemma redact_full_example:
  "PathSanitizer_redact
     \<lparr>PathSanitizer.config = PathSanitizer_DEFAULT_CONFIG\<lparr>basePaths := [''/home/johndoe'', ''/srv/app'']\<rparr>\<rparr>
     ''/home/johndoe/file.txt at /srv/app/x.js in /tmp/abc.d/e''
   = Some ''[PATH]/file.txt at [PATH]/x.js in /tmp/[TEMP]/e''"
  by code_simp

text \<open>
  The marker is handed to \<open>String.prototype.replace\<close> as a replacement string, in which a
  dollar sign starts a pattern. With the marker \<open>$&\<close> the literal expression of a base
  path replaces every occurrence by the occurrence itself.
\<close>

lemma template_match: "template ''$&'' m caps pre post = m"
  by (simp add: template_def)

lemma replaceAll_literal_match:
  "l \<noteq> [] \<Longrightarrow> replaceAll (rxMatcher False (Lit l)) (template ''$&'') pre s = s"
proof (induction l "''$&''" s arbitrary: pre rule: replaceLiteral.induct)
  case (1 needle)
  then show ?case by (simp add: rxMatcher_Lit)
next
  case (2 needle c cs)
  note nonempty = "2.prems"
  show ?case
  proof (cases "prefix needle (c # cs)")
    case True
    then have len: "length needle \<le> Suc (length cs)"
      using prefix_length_le by fastforce
    from nonempty have pos: "length needle \<noteq> 0" by simp
    have m: "rxMatcher False (Lit needle) pre (c # cs) = Some (length needle, [])"
      using True by (simp add: rxMatcher_Lit)
    have step: "replaceAll (rxMatcher False (Lit needle)) (template ''$&'') pre (c # cs)
          = take (length needle) (c # cs)
            @ replaceAll (rxMatcher False (Lit needle)) (template ''$&'')
                (pre @ take (length needle) (c # cs)) (drop (length needle) (c # cs))"
      using len pos by (simp add: m template_match min_absorb1 Let_def)
    from True nonempty have "replaceAll (rxMatcher False (Lit needle)) (template ''$&'')
            (pre @ take (length needle) (c # cs)) (drop (length needle) (c # cs))
          = drop (length needle) (c # cs)"
      by (intro "2.hyps"(1)) simp_all
    with step show ?thesis by (simp only: append_take_drop_id)
  next
    case False
    have m: "rxMatcher False (Lit needle) pre (c # cs) = None"
      using False by (simp add: rxMatcher_Lit)
    from False nonempty have "replaceAll (rxMatcher False (Lit needle)) (template ''$&'')
            (pre @ [c]) cs = cs"
      by (intro "2.hyps"(2)) simp_all
    then show ?thesis by (simp add: m)
  qed
qed

lemma basePathPhase_match: "basePathPhase ''$&'' paths s = s"
proof (induction paths)
  case Nil
  show ?case by (simp add: basePathPhase_def)
next
  case (Cons p ps)
  have "replaceWith (RegExp (Lit p) False True) (template ''$&'') s = s" if "p \<noteq> []"
    using that by (simp add: replaceWith_def RegExp_def replaceAll_literal_match)
  then have "basePathPhase ''$&'' (p # ps) s = basePathPhase ''$&'' ps s"
    by (cases "p = []") (simp_all add: basePathPhase_def)
  with Cons show ?case by simp
qed

text \<open>
  Claim C8 (phase order of the path redactor; every base path replaced by the base-path
  marker). The phases run in the order the claim gives (\<open>PathSanitizer_redact_phases\<close>),
  and a marker without a dollar sign replaces every occurrence of every base path
  (\<open>basePathPhase_literal\<close>). With the marker \<open>$&\<close> the base-path phase changes nothing,
  whatever the base paths: the result of \<open>redact\<close> is that of the two later phases on the
  input itself, and with no custom pattern and system paths off it is the input.
\<close>

theorem base_path_marker_dollar:
  assumes "basePathReplacement (PathSanitizer.config this) = ''$&''"
  shows "PathSanitizer_redact this input
           = PathSanitizer_redact (this\<lparr>PathSanitizer.config := (PathSanitizer.config this)\<lparr>basePaths := []\<rparr>\<rparr>)
               input
         \<and> (PathSanitizerConfig.customPatterns (PathSanitizer.config this) = []
              \<and> \<not> redactSystemPaths (PathSanitizer.config this)
              \<longrightarrow> PathSanitizer_redact this input = Some input)"
  using assms
  by (simp add: PathSanitizer_redact_phases basePathPhase_match systemPhase_def
      basePathPhase_def [of _ "[]"] customPhase_def [of "[]"])

text \<open>
  The working directory \<open>/srv/app\<close> as base path: the default marker redacts it, the
  marker \<open>$&\<close> leaves it in the output.
\<close>

theorem base_path_marker_dollar_witness:
  "PathSanitizer_redact
     \<lparr>PathSanitizer.config = PathSanitizer_DEFAULT_CONFIG
        \<lparr>basePaths := [''/srv/app''], basePathReplacement := ''$&'',
         redactSystemPaths := False\<rparr>\<rparr>
     ''Error at /srv/app/x.js'' = Some ''Error at /srv/app/x.js''
   \<and> PathSanitizer_redact
       \<lparr>PathSanitizer.config = PathSanitizer_DEFAULT_CONFIG
          \<lparr>basePaths := [''/srv/app''], redactSystemPaths := False\<rparr>\<rparr>
       ''Error at /srv/app/x.js'' = Some ''Error at [PATH]/x.js''"
proof -
  let ?ps = "\<lparr>PathSanitizer.config = PathSanitizer_DEFAULT_CONFIG
                  \<lparr>basePaths := [''/srv/app''], basePathReplacement := ''$&'',
                   redactSystemPaths := False\<rparr>\<rparr>"
  have h: "basePathReplacement (PathSanitizer.config ?ps) = ''$&''"
    by simp
  have c: "PathSanitizerConfig.customPatterns (PathSanitizer.config ?ps) = []
           \<and> \<not> redactSystemPaths (PathSanitizer.config ?ps)"
    by (simp add: PathSanitizer_DEFAULT_CONFIG_def)
  have d: "PathSanitizer_redact
             \<lparr>PathSanitizer.config = PathSanitizer_DEFAULT_CONFIG
                \<lparr>basePaths := [''/srv/app''], redactSystemPaths := False\<rparr>\<rparr>
             ''Error at /srv/app/x.js'' = Some ''Error at [PATH]/x.js''"
    by code_simp
  from base_path_marker_dollar [OF h, of "''Error at /srv/app/x.js''"] c
  have "PathSanitizer_redact ?ps ''Error at /srv/app/x.js'' = Some ''Error at /srv/app/x.js''"
    by blast
  with d show ?thesis by simp
qed

end
